theory Spec2Isabelle
  imports Main "HOL-Library.Word" "HOL-Library.Stream"
begin

unbundle bit_operations_syntax

section \<open>Shutdown state machine of main.cc\<close>

text \<open>
  The SIGINT handler installed by \<open>main\<close> works on two globals, \<open>nr_sigints\<close> and
  \<open>ev_base\<close>, and on the list of listeners handed to it as \<open>arg\<close>.  Of the event base
  only one bit matters here: whether \<open>event_base_loopbreak\<close> has been called on it.
\<close>

text \<open>
  Modelled from the spec: \<open>Socks5Server\<close> is declared in \<open>schwanenlied/socks5_server.h\<close>,
  which is not part of the sources at hand.  Section 4.4 says of its operations:
  \<open>close\<close> stops accepting and keeps the live sessions, \<open>close_sessions\<close> tears down
  all live sessions.  A server is its accepting flag and the identifiers of its live
  sessions.
\<close>

record socks5_server =
  accepting :: bool
  sessions :: "nat list"

definition server_close :: "socks5_server \<Rightarrow> socks5_server" where
  "server_close srv = srv\<lparr>accepting := False\<rparr>"

definition close_sessions :: "socks5_server \<Rightarrow> socks5_server" where
  "close_sessions srv = srv\<lparr>sessions := []\<rparr>"

record main_state =
  nr_sigints :: int
  servers :: "socks5_server list"
  loop_broken :: bool

definition INT_MAX :: int where
  "INT_MAX = 2147483647"

definition event_base_loopbreak :: "main_state \<Rightarrow> main_state" where
  "event_base_loopbreak s = s\<lparr>loop_broken := True\<rparr>"

text \<open>
  The callback: \<open>nr_sigints++\<close>, then the \<open>switch\<close>.  Case 2 has no \<open>break\<close> and runs
  on into \<open>default\<close>.  Incrementing a C \<open>int\<close> at \<open>INT_MAX\<close> is undefined; the model
  answers \<open>None\<close> there.
\<close>

definition sigint_cb :: "main_state \<Rightarrow> main_state option" where
  "sigint_cb s =
     (if nr_sigints s = INT_MAX then None
      else
        let s1 = s\<lparr>nr_sigints := nr_sigints s + 1\<rparr> in
        if nr_sigints s1 = 1 then
          Some (s1\<lparr>servers := map server_close (servers s1)\<rparr>)
        else if nr_sigints s1 = 2 then
          Some (event_base_loopbreak (s1\<lparr>servers := map close_sessions (servers s1)\<rparr>))
        else
          Some (event_base_loopbreak s1))"

text \<open>
  \<open>event_base_dispatch\<close> runs callbacks until the loop is broken.  \<open>dispatch n s\<close>
  delivers up to \<open>n\<close> pending SIGINTs to a running loop and stops delivering once
  \<open>event_base_loopbreak\<close> has been called.  The second component counts the signals
  that reached the callback.
\<close>

fun dispatch :: "nat \<Rightarrow> main_state \<Rightarrow> (main_state \<times> nat) option" where
  "dispatch 0 s = Some (s, 0)"
| "dispatch (Suc n) s =
     (if loop_broken s then Some (s, 0)
      else case sigint_cb s of
             None \<Rightarrow> None
           | Some s' \<Rightarrow> map_option (\<lambda>(t, k). (t, Suc k)) (dispatch n s'))"

definition main_init :: "socks5_server list \<Rightarrow> main_state" where
  "main_init ls = \<lparr>nr_sigints = 0, servers = ls, loop_broken = False\<rparr>"

section \<open>Bytes and the primitives the session code calls\<close>

type_synonym byte = "8 word"
type_synonym bytes = "byte list"

text \<open>
  \<open>htonl\<close> followed by a byte-wise read of the word, and a byte-wise write followed by
  \<open>ntohl\<close>, are big-endian serialisation on every host.
\<close>

definition be_bytes :: "nat \<Rightarrow> 'a::len word \<Rightarrow> bytes" where
  "be_bytes n w = map (\<lambda>i. ucast (drop_bit (8 * i) w)) (rev [0..<n])"

definition be_word :: "bytes \<Rightarrow> 'a::len word" where
  "be_word bs = foldl (\<lambda>acc b. push_bit 8 acc OR ucast b) 0 bs"

text \<open>
  Modelled from the spec: the constants of the class declaration
  (\<open>schwanenlied/pt/obfs2/client.h\<close>, not among the sources).  The spec gives
  \<open>MAGIC = 0x2BF5CA7E\<close>, \<open>kMaxPadding = 8192\<close> and 16-byte seeds;
  \<open>Sha256::kDigestLength\<close> is 32 and the AES-128 key length is 16.
\<close>

definition kMagicValue :: "32 word" where
  "kMagicValue = 0x2BF5CA7E"

definition kMaxPadding :: nat where
  "kMaxPadding = 8192"

definition kSeedLength :: nat where
  "kSeedLength = 16"

definition kDigestLength :: nat where
  "kDigestLength = 32"

definition kAes128KeyLength :: nat where
  "kAes128KeyLength = 16"

text \<open>
  Modelled from the spec: \<open>crypto::AesCtr128\<close> is not among the sources.  Section 4.3.3:
  the counter starts as the 16-byte IV read as a big-endian integer and goes up by one per
  16-byte block; a block that is used only in part has consumed its counter value all the
  same, and the next call goes on inside that block.  \<open>ctr_num\<close> is the number of bytes
  of the current block already used.
\<close>

record aes_ctr =
  ctr_key :: bytes
  ctr_counter :: "128 word"
  ctr_num :: nat

text \<open>
  The primitives behind the \<open>crypto\<close> classes are parameters of the development: the
  SHA-256 function (\<open>None\<close> when \<open>Sha256::digest\<close> returns \<open>false\<close>), the AES-128 block
  function, and the conditions under which \<open>AesCtr128::set_state\<close> and
  \<open>AesCtr128::process\<close> return \<open>false\<close>.
\<close>

record crypto =
  sha256 :: "bytes \<Rightarrow> 256 word option"
  aes128 :: "bytes \<Rightarrow> 128 word \<Rightarrow> 128 word"
  set_state_fails :: "bytes \<Rightarrow> bytes \<Rightarrow> bool"
  process_fails :: "aes_ctr \<Rightarrow> bytes \<Rightarrow> bool"

definition unkeyed :: aes_ctr where
  "unkeyed = \<lparr>ctr_key = [], ctr_counter = 0, ctr_num = 0\<rparr>"

definition set_state :: "crypto \<Rightarrow> bytes \<Rightarrow> bytes \<Rightarrow> aes_ctr option" where
  "set_state c key iv =
     (if set_state_fails c key iv then None
      else Some \<lparr>ctr_key = key, ctr_counter = be_word iv, ctr_num = 0\<rparr>)"

definition keystream_byte :: "crypto \<Rightarrow> aes_ctr \<Rightarrow> byte" where
  "keystream_byte c st =
     ucast (drop_bit (8 * (15 - ctr_num st)) (aes128 c (ctr_key st) (ctr_counter st)))"

definition ctr_advance :: "aes_ctr \<Rightarrow> aes_ctr" where
  "ctr_advance st =
     (if ctr_num st + 1 < 16 then st\<lparr>ctr_num := ctr_num st + 1\<rparr>
      else st\<lparr>ctr_counter := ctr_counter st + 1, ctr_num := 0\<rparr>)"

fun ctr_xor :: "crypto \<Rightarrow> aes_ctr \<Rightarrow> bytes \<Rightarrow> aes_ctr \<times> bytes" where
  "ctr_xor c st [] = (st, [])"
| "ctr_xor c st (b # bs) =
     (let (st', out) = ctr_xor c (ctr_advance st) bs
      in (st', (b XOR keystream_byte c st) # out))"

definition process :: "crypto \<Rightarrow> aes_ctr \<Rightarrow> bytes \<Rightarrow> (aes_ctr \<times> bytes) option" where
  "process c st xs = (if process_fails c st xs then None else Some (ctr_xor c st xs))"

section \<open>The MAC and the key derivation\<close>

text \<open>
  \<open>mac\<close> takes the key and the message as pointer and length; here a null pointer is
  \<open>None\<close> and a buffer of \<open>n\<close> bytes is \<open>Some\<close> of a list of length \<open>n\<close>.  \<open>digest\<close> is
  the caller's output buffer; the result is its new content, \<open>None\<close> when the function
  returns \<open>false\<close>.  The two classes \<open>Obfs2Client\<close> and \<open>obfs2::Client\<close> have the same
  \<open>mac\<close>.
\<close>

definition mac :: "crypto \<Rightarrow> bytes option \<Rightarrow> bytes option \<Rightarrow> bytes \<Rightarrow> bytes option" where
  "mac c key buf digest =
     (case key of
        None \<Rightarrow> None
      | Some k \<Rightarrow>
          if length k = 0 then None
          else case buf of
            None \<Rightarrow> None
          | Some m \<Rightarrow>
              if length m = 0 then None
              else if length digest \<noteq> kDigestLength then None
              else
                let to_sha = k @ m @ k in
                map_option (be_bytes kDigestLength) (sha256 c to_sha))"

definition init_mac_key :: bytes where
  "init_mac_key = map (of_nat \<circ> of_char) ''Initiator obfuscation padding''"

definition resp_mac_key :: bytes where
  "resp_mac_key = map (of_nat \<circ> of_char) ''Responder obfuscation padding''"

definition init_data :: bytes where
  "init_data = map (of_nat \<circ> of_char) ''Initiator obfuscated data''"

definition resp_data :: bytes where
  "resp_data = map (of_nat \<circ> of_char) ''Responder obfuscated data''"

section \<open>The older class: padding length\<close>

datatype fault = Assertion_failed | Buffer_overrun

text \<open>
  \<open>evutil_secure_rng_get_bytes\<close> cannot fail and never runs dry: the generator is an
  infinite stream of bytes.  Four of them fill a \<open>uint32_t\<close> in host order, taken
  little-endian here.
\<close>

definition le_word32 :: "bytes \<Rightarrow> 32 word" where
  "le_word32 bs = be_word (rev bs)"

definition evutil_secure_rng_get_bytes :: "nat \<Rightarrow> byte stream \<Rightarrow> bytes \<times> byte stream" where
  "evutil_secure_rng_get_bytes n rng = (stake n rng, sdrop n rng)"

text \<open>
  The \<open>do \<dots> while\<close> loop of \<open>Obfs2Client::gen_padlen\<close> draws until the masked value
  is at most \<open>kMaxPadding\<close>; nothing bounds the number of rounds, so the loop is a partial
  function.  \<open>gen_padlen\<close> then runs \<open>SL_ASSERT(ret < kMaxPadding)\<close> before it returns.
\<close>

partial_function (option) gen_padlen_loop :: "byte stream \<Rightarrow> (32 word \<times> byte stream) option" where
  "gen_padlen_loop rng =
     (let (raw, rng') = evutil_secure_rng_get_bytes 4 rng;
          ret = le_word32 raw AND 0x2fff
      in if unat ret > kMaxPadding then gen_padlen_loop rng' else Some (ret, rng'))"

definition gen_padlen :: "byte stream \<Rightarrow> ((fault + 32 word) \<times> byte stream) option" where
  "gen_padlen rng =
     map_option
       (\<lambda>(ret, rng'). (if unat ret < kMaxPadding then Inr ret else Inl Assertion_failed, rng'))
       (gen_padlen_loop rng)"

section \<open>Endpoints and the session framework\<close>

text \<open>
  A \<open>bufferevent\<close> is its input buffer (bytes received and not yet consumed) and the bytes
  written to it so far.  The libevent calls whose result the session code checks can fail
  for reasons outside the program; \<open>ok_calls\<close> says how many further such calls on this
  endpoint succeed (\<open>None\<close>: all of them).
\<close>

record bufferevent =
  ev_input :: bytes
  ev_output :: bytes
  ok_calls :: "nat option"

definition ev_call :: "bufferevent \<Rightarrow> bufferevent option" where
  "ev_call e =
     (case ok_calls e of
        None \<Rightarrow> Some e
      | Some 0 \<Rightarrow> None
      | Some (Suc n) \<Rightarrow> Some (e\<lparr>ok_calls := Some n\<rparr>))"

definition bufferevent_write :: "bufferevent \<Rightarrow> bytes \<Rightarrow> bufferevent option" where
  "bufferevent_write e data = map_option (\<lambda>e'. e'\<lparr>ev_output := ev_output e' @ data\<rparr>) (ev_call e)"

definition evbuffer_get_length :: "bufferevent \<Rightarrow> nat" where
  "evbuffer_get_length e = length (ev_input e)"

definition evbuffer_remove :: "bufferevent \<Rightarrow> nat \<Rightarrow> (bytes \<times> bufferevent) option" where
  "evbuffer_remove e n =
     map_option (\<lambda>e'. (take n (ev_input e'), e'\<lparr>ev_input := drop n (ev_input e')\<rparr>)) (ev_call e)"

definition evbuffer_drain :: "bufferevent \<Rightarrow> nat \<Rightarrow> bufferevent" where
  "evbuffer_drain e n = e\<lparr>ev_input := drop n (ev_input e)\<rparr>"

definition evbuffer_pullup :: "bufferevent \<Rightarrow> nat \<Rightarrow> (bytes \<times> bufferevent) option" where
  "evbuffer_pullup e n = map_option (\<lambda>e'. (take n (ev_input e'), e')) (ev_call e)"

text \<open>
  \<open>bufferevent_write_buffer dst src\<close> moves the whole input buffer of \<open>src\<close> to the output
  of \<open>dst\<close>; the result is the pair of the new \<open>dst\<close> and the new \<open>src\<close>.
\<close>

definition bufferevent_write_buffer ::
  "bufferevent \<Rightarrow> bufferevent \<Rightarrow> (bufferevent \<times> bufferevent) option" where
  "bufferevent_write_buffer dst src =
     map_option (\<lambda>d. (d\<lparr>ev_output := ev_output d @ ev_input src\<rparr>, src\<lparr>ev_input := []\<rparr>)) (ev_call dst)"

datatype session_state =
  INVALID | CONNECTING | ESTABLISHED | FLUSHING_INCOMING | FLUSHING_OUTGOING | CLOSED

datatype reply = SUCCEDED | GENERAL_FAILURE | SOCKS4_GRANTED | SOCKS4_REJECTED

text \<open>
  Modelled from the spec: the random source \<open>rand\<close> and the distribution \<open>pad_dist_\<close> are
  declared in the class header, which is not among the sources.  \<open>get_bytes\<close> reports
  failure; \<open>tape\<close> holds the bytes the source still delivers, and a request for more than
  that fails.  Section 4.3 has PADLEN chosen from \<open>{0, \<dots>, kMaxPadding}\<close>; the value the
  distribution returns in this session is \<open>pad_draw\<close>.
\<close>

record rand_source =
  tape :: bytes
  pad_draw :: "32 word"

definition get_bytes :: "rand_source \<Rightarrow> nat \<Rightarrow> (bytes \<times> rand_source) option" where
  "get_bytes r n =
     (if length (tape r) < n then None
      else Some (take n (tape r), r\<lparr>tape := drop n (tape r)\<rparr>))"

definition pad_dist :: "rand_source \<Rightarrow> 32 word" where
  "pad_dist r = pad_draw r"

text \<open>
  The members of \<open>obfs2::Client\<close> that the callbacks read and write.  \<open>resp_pad_len\<close> is
  a \<open>size_t\<close> (it is an argument of \<open>std::min\<close> together with a \<open>size_t\<close>), 64 bits wide
  here.  \<open>replies\<close> lists the SOCKS replies sent to the client, oldest first.
\<close>

record session =
  state :: session_state
  incoming :: bufferevent
  outgoing :: bufferevent
  rand :: rand_source
  init_seed :: bytes
  resp_seed :: bytes
  initiator_aes :: aes_ctr
  responder_aes :: aes_ctr
  received_seed_hdr :: bool
  resp_pad_len :: "64 word"
  replies :: "reply list"

text \<open>
  Modelled from the spec: \<open>send_socks5_response\<close> and \<open>close_session\<close> belong to
  \<open>Socks5Server\<close>, which is not among the sources.  Section 4.2: the first writes the
  SOCKS5 reply, flips the state to ESTABLISHED on SUCCEEDED, arranges the close on any
  other reply, and returns true iff the reply was SUCCEEDED; the second destroys the
  session.  The arranged close is the state FLUSHING_INCOMING.
\<close>

definition send_socks5_response ::
  "reply \<Rightarrow> 'a session_scheme \<Rightarrow> bool \<times> 'a session_scheme" where
  "send_socks5_response r s =
     (r = SUCCEDED,
      s\<lparr>replies := replies s @ [r],
        state := (if r = SUCCEDED then ESTABLISHED else FLUSHING_INCOMING)\<rparr>)"

definition close_session :: "'a session_scheme \<Rightarrow> 'a session_scheme" where
  "close_session s = s\<lparr>state := CLOSED\<rparr>"

section \<open>obfs2::Client\<close>

definition kdf_obfs2 :: "crypto \<Rightarrow> 'a session_scheme \<Rightarrow> bool \<times> 'a session_scheme" where
  "kdf_obfs2 c s =
     (let to_mac = init_seed s @ resp_seed s;
          sekrit = replicate kDigestLength 0
      in case mac c (Some init_data) (Some to_mac) sekrit of
           None \<Rightarrow> (False, s)
         | Some sekrit1 \<Rightarrow>
             (case set_state c (take kAes128KeyLength sekrit1) (drop kAes128KeyLength sekrit1) of
                None \<Rightarrow> (False, s)
              | Some ia \<Rightarrow>
                  let s1 = s\<lparr>initiator_aes := ia\<rparr>
                  in case mac c (Some resp_data) (Some to_mac) sekrit1 of
                       None \<Rightarrow> (False, s1)
                     | Some sekrit2 \<Rightarrow>
                         (case set_state c (take kAes128KeyLength sekrit2)
                                 (drop kAes128KeyLength sekrit2) of
                            None \<Rightarrow> (False, s1)
                          | Some ra \<Rightarrow> (True, s1\<lparr>responder_aes := ra\<rparr>))))"

text \<open>
  The last block of \<open>on_outgoing_connected\<close>, entered when \<open>padlen > 0\<close>: draw the padding
  into \<open>uint8_t padding[kMaxPadding]\<close>, encrypt it in place, write it.  A \<open>padlen\<close> above
  \<open>kMaxPadding\<close> would write past the array.
\<close>

definition send_padding :: "crypto \<Rightarrow> 32 word \<Rightarrow> session \<Rightarrow> fault + bool \<times> session" where
  "send_padding c padlen s =
     (if unat padlen > kMaxPadding then Inl Buffer_overrun
      else case get_bytes (rand s) (unat padlen) of
        None \<Rightarrow> Inr (send_socks5_response GENERAL_FAILURE s)
      | Some (padding, r) \<Rightarrow>
          let s1 = s\<lparr>rand := r\<rparr>
          in case process c (initiator_aes s1) padding of
               None \<Rightarrow> Inr (send_socks5_response GENERAL_FAILURE s1)
             | Some (aes, padding') \<Rightarrow>
                 let s2 = s1\<lparr>initiator_aes := aes\<rparr>
                 in case bufferevent_write (outgoing s2) padding' of
                      None \<Rightarrow> Inr (send_socks5_response GENERAL_FAILURE s2)
                    | Some og \<Rightarrow> Inr (True, s2\<lparr>outgoing := og\<rparr>))"

definition on_outgoing_connected :: "crypto \<Rightarrow> session \<Rightarrow> fault + bool \<times> session" where
  "on_outgoing_connected c s =
     (case get_bytes (rand s) kSeedLength of
        None \<Rightarrow> Inr (send_socks5_response GENERAL_FAILURE s)
      | Some (seed, r) \<Rightarrow>
          let s1 = s\<lparr>init_seed := seed, rand := r\<rparr>
          in case mac c (Some init_mac_key) (Some (init_seed s1)) (replicate kDigestLength 0) of
               None \<Rightarrow> Inr (send_socks5_response GENERAL_FAILURE s1)
             | Some init_pad_key \<Rightarrow>
                 (case set_state c (take kAes128KeyLength init_pad_key)
                         (drop kAes128KeyLength init_pad_key) of
                    None \<Rightarrow> Inr (send_socks5_response GENERAL_FAILURE s1)
                  | Some aes0 \<Rightarrow>
                      let s2 = s1\<lparr>initiator_aes := aes0\<rparr>;
                          padlen = pad_dist (rand s2);
                          pad_hdr = be_bytes 4 kMagicValue @ be_bytes 4 padlen
                      in case process c (initiator_aes s2) pad_hdr of
                           None \<Rightarrow> Inr (send_socks5_response GENERAL_FAILURE s2)
                         | Some (aes1, pad_hdr') \<Rightarrow>
                             let s3 = s2\<lparr>initiator_aes := aes1\<rparr>
                             in case bufferevent_write (outgoing s3) (init_seed s3) of
                                  None \<Rightarrow> Inr (send_socks5_response GENERAL_FAILURE s3)
                                | Some og1 \<Rightarrow>
                                    let s4 = s3\<lparr>outgoing := og1\<rparr>
                                    in case bufferevent_write (outgoing s4) pad_hdr' of
                                         None \<Rightarrow> Inr (send_socks5_response GENERAL_FAILURE s4)
                                       | Some og2 \<Rightarrow>
                                           let s5 = s4\<lparr>outgoing := og2\<rparr>
                                           in if padlen > 0 then send_padding c padlen s5
                                              else Inr (True, s5)))"

definition on_incoming_data :: "crypto \<Rightarrow> session \<Rightarrow> fault + bool \<times> session" where
  "on_incoming_data c s =
     (if state s \<noteq> ESTABLISHED then Inl Assertion_failed
      else
        let len = evbuffer_get_length (incoming s)
        in if len = 0 then Inr (True, s)
           else case evbuffer_pullup (incoming s) len of
             None \<Rightarrow> Inr (False, close_session s)
           | Some (p, buf) \<Rightarrow>
               let s1 = s\<lparr>incoming := buf\<rparr>
               in case process c (initiator_aes s1) p of
                    None \<Rightarrow> Inr (False, close_session s1)
                  | Some (aes, p') \<Rightarrow>
                      let s2 = s1\<lparr>initiator_aes := aes,
                                  incoming := (incoming s1)\<lparr>ev_input := p' @ drop len (ev_input (incoming s1))\<rparr>\<rparr>
                      in case bufferevent_write_buffer (outgoing s2) (incoming s2) of
                           None \<Rightarrow> Inr (False, close_session s2)
                         | Some (og, ic) \<Rightarrow> Inr (True, s2\<lparr>outgoing := og, incoming := ic\<rparr>))"

definition on_outgoing_data :: "crypto \<Rightarrow> session \<Rightarrow> fault + bool \<times> session" where
  "on_outgoing_data c s =
     (if state s \<noteq> ESTABLISHED then Inl Assertion_failed
      else
        let len = evbuffer_get_length (outgoing s)
        in if len = 0 then Inr (True, s)
           else case evbuffer_pullup (outgoing s) len of
             None \<Rightarrow> Inr (False, close_session s)
           | Some (p, buf) \<Rightarrow>
               let s1 = s\<lparr>outgoing := buf\<rparr>
               in case process c (responder_aes s1) p of
                    None \<Rightarrow> Inr (False, close_session s1)
                  | Some (aes, p') \<Rightarrow>
                      let s2 = s1\<lparr>responder_aes := aes,
                                  outgoing := (outgoing s1)\<lparr>ev_input := p' @ drop len (ev_input (outgoing s1))\<rparr>\<rparr>
                      in case bufferevent_write_buffer (incoming s2) (outgoing s2) of
                           None \<Rightarrow> Inr (False, close_session s2)
                         | Some (ic, og) \<Rightarrow> Inr (True, s2\<lparr>incoming := ic, outgoing := og\<rparr>))"

text \<open>
  \<open>on_outgoing_data_connecting\<close>.  The block guarded by \<open>!received_seed_hdr_\<close> is
  \<open>read_seed_hdr\<close>, which goes on into \<open>read_pad_hdr\<close> (the source's ``Validate the header
  and obtain padlen'') and \<open>check_pad_hdr\<close> (the two comparisons and the key derivation).
  The result \<open>Inl\<close> is a \<open>return\<close> from inside the block with its value, \<open>Inr\<close> the
  state with which control leaves the block.  \<open>skip_padding\<close> is the rest of the function.
\<close>

definition check_pad_hdr :: "crypto \<Rightarrow> bytes \<Rightarrow> session \<Rightarrow> (bool \<times> session) + session" where
  "check_pad_hdr c pad_hdr s =
     (if (be_word (take 4 pad_hdr) :: 32 word) \<noteq> kMagicValue
      then Inl (send_socks5_response GENERAL_FAILURE s)
      else
        let s1 = s\<lparr>resp_pad_len := ucast (be_word (drop 4 pad_hdr) :: 32 word)\<rparr>
        in if unat (resp_pad_len s1) > kMaxPadding
           then Inl (send_socks5_response GENERAL_FAILURE s1)
           else case kdf_obfs2 c s1 of
             (False, s2) \<Rightarrow> Inl (send_socks5_response GENERAL_FAILURE s2)
           | (True, s2) \<Rightarrow> Inr (s2\<lparr>received_seed_hdr := True\<rparr>))"

definition read_pad_hdr :: "crypto \<Rightarrow> session \<Rightarrow> (bool \<times> session) + session" where
  "read_pad_hdr c s =
     (case evbuffer_remove (outgoing s) (4 * 2) of
        None \<Rightarrow> Inl (send_socks5_response GENERAL_FAILURE s)
      | Some (pad_hdr, og) \<Rightarrow>
          let s1 = s\<lparr>outgoing := og\<rparr>
          in if length pad_hdr \<noteq> 4 * 2 then Inl (send_socks5_response GENERAL_FAILURE s1)
             else case process c (responder_aes s1) pad_hdr of
               None \<Rightarrow> Inl (send_socks5_response GENERAL_FAILURE s1)
             | Some (aes, pad_hdr') \<Rightarrow> check_pad_hdr c pad_hdr' (s1\<lparr>responder_aes := aes\<rparr>))"

definition read_seed_hdr :: "crypto \<Rightarrow> session \<Rightarrow> (bool \<times> session) + session" where
  "read_seed_hdr c s =
     (let len = evbuffer_get_length (outgoing s)
      in if len < kSeedLength + 4 * 2 then Inl (True, s)
         else case evbuffer_remove (outgoing s) kSeedLength of
           None \<Rightarrow> Inl (send_socks5_response GENERAL_FAILURE s)
         | Some (seed, og) \<Rightarrow>
             let s1 = s\<lparr>outgoing := og, resp_seed := seed\<rparr>
             in if length seed \<noteq> kSeedLength then Inl (send_socks5_response GENERAL_FAILURE s1)
                else case mac c (Some resp_mac_key) (Some (resp_seed s1))
                            (replicate kDigestLength 0) of
                  None \<Rightarrow> Inl (send_socks5_response GENERAL_FAILURE s1)
                | Some resp_pad_key \<Rightarrow>
                    (case set_state c (take kAes128KeyLength resp_pad_key)
                            (drop kAes128KeyLength resp_pad_key) of
                       None \<Rightarrow> Inl (send_socks5_response GENERAL_FAILURE s1)
                     | Some aes \<Rightarrow> read_pad_hdr c (s1\<lparr>responder_aes := aes\<rparr>)))"

definition skip_padding :: "session \<Rightarrow> bool \<times> session" where
  "skip_padding s =
     (if resp_pad_len s > 0 then
        let len = (of_nat (evbuffer_get_length (outgoing s)) :: 64 word);
            to_drain = min (resp_pad_len s) len;
            s1 = s\<lparr>outgoing := evbuffer_drain (outgoing s) (unat to_drain),
                   resp_pad_len := resp_pad_len s - to_drain\<rparr>
        in if resp_pad_len s1 > 0 then (True, s1)
           else send_socks5_response SUCCEDED s1
      else send_socks5_response SUCCEDED s)"

definition on_outgoing_data_connecting :: "crypto \<Rightarrow> session \<Rightarrow> fault + bool \<times> session" where
  "on_outgoing_data_connecting c s =
     (if state s \<noteq> CONNECTING then Inl Assertion_failed
      else if \<not> received_seed_hdr s then
        (case read_seed_hdr c s of
           Inl r \<Rightarrow> Inr r
         | Inr s' \<Rightarrow> Inr (skip_padding s'))
      else Inr (skip_padding s))"

section \<open>Obfs2Client, the older class\<close>

text \<open>
  The older class has the same members and draws its padding from libevent's generator.
  It answers the client through \<open>send_socks4_response(bool)\<close>, which the spec does not
  describe; it is taken to be the counterpart of \<open>send_socks5_response\<close> with a flag in
  place of the reply code.  \<open>RAND_bytes\<close> reads the same byte source as \<open>get_bytes\<close>.
\<close>

record obfs2client = session +
  evutil_rng :: "byte stream"

definition send_socks4_response :: "bool \<Rightarrow> 'a session_scheme \<Rightarrow> 'a session_scheme" where
  "send_socks4_response ok s =
     s\<lparr>replies := replies s @ [if ok then SOCKS4_GRANTED else SOCKS4_REJECTED],
       state := (if ok then ESTABLISHED else FLUSHING_INCOMING)\<rparr>"

text \<open>
  \<open>Obfs2Client::on_outgoing_connected\<close> returns nothing.  The result is \<open>None\<close> when
  \<open>gen_padlen\<close> does not return, a fault when its assertion fails, and the new state
  otherwise; on the \<open>out_error\<close> path that state carries the rejection.
\<close>

definition Obfs2Client_on_outgoing_connected ::
  "crypto \<Rightarrow> obfs2client \<Rightarrow> (fault + obfs2client) option" where
  "Obfs2Client_on_outgoing_connected c s =
     (case get_bytes (rand s) kSeedLength of
        None \<Rightarrow> Some (Inr (send_socks4_response False s))
      | Some (seed, r) \<Rightarrow>
          let s1 = s\<lparr>init_seed := seed, rand := r\<rparr>
          in case mac c (Some init_mac_key) (Some (init_seed s1)) (replicate kDigestLength 0) of
               None \<Rightarrow> Some (Inr (send_socks4_response False s1))
             | Some init_pad_key \<Rightarrow>
                 (case set_state c (take kAes128KeyLength init_pad_key)
                         (drop kAes128KeyLength init_pad_key) of
                    None \<Rightarrow> Some (Inr (send_socks4_response False s1))
                  | Some aes0 \<Rightarrow>
                      let s2 = s1\<lparr>initiator_aes := aes0\<rparr>
                      in case gen_padlen (evutil_rng s2) of
                           None \<Rightarrow> None
                         | Some (Inl f, rng) \<Rightarrow> Some (Inl f)
                         | Some (Inr padlen, rng) \<Rightarrow>
                             let s3 = s2\<lparr>evutil_rng := rng\<rparr>;
                                 pad_hdr = be_bytes 4 kMagicValue @ be_bytes 4 padlen
                             in case process c (initiator_aes s3) pad_hdr of
                                  None \<Rightarrow> Some (Inr (send_socks4_response False s3))
                                | Some (aes1, pad_hdr') \<Rightarrow>
                                    let s4 = s3\<lparr>initiator_aes := aes1\<rparr>
                                    in case bufferevent_write (outgoing s4) (init_seed s4) of
                                         None \<Rightarrow> Some (Inr (send_socks4_response False s4))
                                       | Some og1 \<Rightarrow>
                                           let s5 = s4\<lparr>outgoing := og1\<rparr>
                                           in case bufferevent_write (outgoing s5) pad_hdr' of
                                                None \<Rightarrow> Some (Inr (send_socks4_response False s5))
                                              | Some og2 \<Rightarrow>
                                                  let s6 = s5\<lparr>outgoing := og2\<rparr>
                                                  in if padlen > 0 then
                                                       let (padding, rng') =
                                                             evutil_secure_rng_get_bytes (unat padlen)
                                                               (evutil_rng s6);
                                                           s7 = s6\<lparr>evutil_rng := rng'\<rparr>
                                                       in case bufferevent_write (outgoing s7) padding of
                                                            None \<Rightarrow>
                                                              Some (Inr (send_socks4_response False s7))
                                                          | Some og3 \<Rightarrow>
                                                              Some (Inr (s7\<lparr>outgoing := og3\<rparr>))
                                                     else Some (Inr s6)))"

text \<open>
  \<open>Obfs2Client::on_outgoing_data_connecting\<close>, cut like the newer one: the block guarded
  by \<open>!received_seed_hdr_\<close> is \<open>Obfs2Client_read_seed_hdr\<close>, which goes on into
  \<open>Obfs2Client_check_pad_hdr\<close>; \<open>Inl\<close> is a \<open>return\<close> from inside the block and
  \<open>Inr\<close> the state with which control leaves it.  The older class reads seed and header
  through \<open>evbuffer_pullup\<close>, decrypts the header where it lies in the buffer, drains the
  24 bytes only once the header has been accepted, and goes to \<open>out_error\<close>, that is
  \<open>send_socks4_response(false)\<close>, on every failure.  The function returns nothing.
\<close>

definition Obfs2Client_check_pad_hdr ::
  "crypto \<Rightarrow> bytes \<Rightarrow> obfs2client \<Rightarrow> obfs2client + obfs2client" where
  "Obfs2Client_check_pad_hdr c pad_hdr s =
     (if (be_word (take 4 pad_hdr) :: 32 word) \<noteq> kMagicValue
      then Inl (send_socks4_response False s)
      else
        let s1 = s\<lparr>resp_pad_len := ucast (be_word (drop 4 pad_hdr) :: 32 word)\<rparr>
        in if unat (resp_pad_len s1) > kMaxPadding
           then Inl (send_socks4_response False s1)
           else
             let s2 = s1\<lparr>outgoing := evbuffer_drain (outgoing s1) (kSeedLength + 4 * 2)\<rparr>
             in case kdf_obfs2 c s2 of
               (False, s3) \<Rightarrow> Inl (send_socks4_response False s3)
             | (True, s3) \<Rightarrow> Inr (s3\<lparr>received_seed_hdr := True\<rparr>))"

definition Obfs2Client_read_seed_hdr :: "crypto \<Rightarrow> obfs2client \<Rightarrow> obfs2client + obfs2client" where
  "Obfs2Client_read_seed_hdr c s =
     (let seed_hdr_sz = kSeedLength + 4 * 2;
          len = evbuffer_get_length (outgoing s)
      in if len < seed_hdr_sz then Inl s
         else case evbuffer_pullup (outgoing s) seed_hdr_sz of
           None \<Rightarrow> Inl (send_socks4_response False s)
         | Some (p, buf) \<Rightarrow>
             let s1 = s\<lparr>outgoing := buf, resp_seed := take kSeedLength p\<rparr>
             in case mac c (Some resp_mac_key) (Some (resp_seed s1))
                       (replicate kDigestLength 0) of
                  None \<Rightarrow> Inl (send_socks4_response False s1)
                | Some resp_pad_key \<Rightarrow>
                    (case set_state c (take kAes128KeyLength resp_pad_key)
                            (drop kAes128KeyLength resp_pad_key) of
                       None \<Rightarrow> Inl (send_socks4_response False s1)
                     | Some aes \<Rightarrow>
                         let s2 = s1\<lparr>responder_aes := aes\<rparr>
                         in case process c (responder_aes s2) (drop kSeedLength p) of
                              None \<Rightarrow> Inl (send_socks4_response False s2)
                            | Some (aes', pad_hdr) \<Rightarrow>
                                let s3 = s2\<lparr>responder_aes := aes',
                                           outgoing := (outgoing s2)
                                             \<lparr>ev_input := take kSeedLength p @ pad_hdr
                                                @ drop seed_hdr_sz (ev_input (outgoing s2))\<rparr>\<rparr>
                                in Obfs2Client_check_pad_hdr c pad_hdr s3))"

definition Obfs2Client_skip_padding :: "obfs2client \<Rightarrow> obfs2client" where
  "Obfs2Client_skip_padding s =
     (if resp_pad_len s > 0 then
        let len = (of_nat (evbuffer_get_length (outgoing s)) :: 64 word);
            to_drain = min (resp_pad_len s) len;
            s1 = s\<lparr>outgoing := evbuffer_drain (outgoing s) (unat to_drain),
                   resp_pad_len := resp_pad_len s - to_drain\<rparr>
        in if resp_pad_len s1 > 0 then s1
           else send_socks4_response True s1
      else send_socks4_response True s)"

definition Obfs2Client_on_outgoing_data_connecting ::
  "crypto \<Rightarrow> obfs2client \<Rightarrow> fault + obfs2client" where
  "Obfs2Client_on_outgoing_data_connecting c s =
     (if state s \<noteq> CONNECTING then Inl Assertion_failed
      else if \<not> received_seed_hdr s then
        (case Obfs2Client_read_seed_hdr c s of
           Inl r \<Rightarrow> Inr r
         | Inr s' \<Rightarrow> Inr (Obfs2Client_skip_padding s'))
      else Inr (Obfs2Client_skip_padding s))"

section \<open>Runs of the callbacks\<close>

text \<open>Bytes arriving at an endpoint are appended to its input buffer.\<close>

definition feed :: "bufferevent \<Rightarrow> bytes \<Rightarrow> bufferevent" where
  "feed e data = e\<lparr>ev_input := ev_input e @ data\<rparr>"

text \<open>
  The data phase.  An event is a chunk of bytes arriving from the SOCKS client or from
  the peer; the runtime then calls \<open>on_incoming_data\<close> or \<open>on_outgoing_data\<close>.  \<open>splice\<close>
  is \<open>None\<close> as soon as a callback faults or returns \<open>false\<close>.
\<close>

datatype event = From_client bytes | From_peer bytes

fun client_bytes :: "event list \<Rightarrow> bytes" where
  "client_bytes [] = []"
| "client_bytes (From_client x # evs) = x @ client_bytes evs"
| "client_bytes (From_peer y # evs) = client_bytes evs"

fun peer_bytes :: "event list \<Rightarrow> bytes" where
  "peer_bytes [] = []"
| "peer_bytes (From_client x # evs) = peer_bytes evs"
| "peer_bytes (From_peer y # evs) = y @ peer_bytes evs"

fun splice :: "crypto \<Rightarrow> session \<Rightarrow> event list \<Rightarrow> session option" where
  "splice c s [] = Some s"
| "splice c s (From_client x # evs) =
     (case on_incoming_data c (s\<lparr>incoming := feed (incoming s) x\<rparr>) of
        Inr (True, s') \<Rightarrow> splice c s' evs
      | _ \<Rightarrow> None)"
| "splice c s (From_peer y # evs) =
     (case on_outgoing_data c (s\<lparr>outgoing := feed (outgoing s) y\<rparr>) of
        Inr (True, s') \<Rightarrow> splice c s' evs
      | _ \<Rightarrow> None)"

text \<open>
  The test peer of the splice scenario holds the same two cipher states as the client at
  the start of the data phase.  It removes the initiator keystream from what it receives
  and sends the result back under the responder keystream.
\<close>

definition peer_echo :: "crypto \<Rightarrow> aes_ctr \<Rightarrow> aes_ctr \<Rightarrow> bytes \<Rightarrow> bytes" where
  "peer_echo c ia ra wire = snd (ctr_xor c ra (snd (ctr_xor c ia wire)))"

text \<open>
  The handshake phase: chunks arrive from the peer and the runtime calls
  \<open>on_outgoing_data_connecting\<close> until the session is established.
\<close>

fun connecting :: "crypto \<Rightarrow> session \<Rightarrow> bytes list \<Rightarrow> session option" where
  "connecting c s [] = Some s"
| "connecting c s (x # xs) =
     (case on_outgoing_data_connecting c (s\<lparr>outgoing := feed (outgoing s) x\<rparr>) of
        Inr (True, s') \<Rightarrow> if state s' = ESTABLISHED then Some s' else connecting c s' xs
      | _ \<Rightarrow> None)"

text \<open>
  What the first 24 buffered bytes of the responder say: the seed keys the responder pad
  cipher, under which the next 8 bytes decrypt to the magic value and the padding length.
\<close>

definition responder_header :: "crypto \<Rightarrow> bytes \<Rightarrow> (32 word \<times> 32 word) option" where
  "responder_header c buf =
     (case mac c (Some resp_mac_key) (Some (take kSeedLength buf)) (replicate kDigestLength 0) of
        None \<Rightarrow> None
      | Some k \<Rightarrow>
          (case set_state c (take kAes128KeyLength k) (drop kAes128KeyLength k) of
             None \<Rightarrow> None
           | Some aes \<Rightarrow>
               (case process c aes (take 8 (drop kSeedLength buf)) of
                  None \<Rightarrow> None
                | Some (aes', hdr) \<Rightarrow> Some (be_word (take 4 hdr), be_word (drop 4 hdr)))))"

text \<open>The cipher state \<open>set_state\<close> installs from a 32-byte secret.\<close>

definition keyed_from :: "bytes \<Rightarrow> aes_ctr" where
  "keyed_from secret =
     \<lparr>ctr_key = take kAes128KeyLength secret,
      ctr_counter = be_word (drop kAes128KeyLength secret),
      ctr_num = 0\<rparr>"

text \<open>
  The outcome of every \<open>return send_socks5_response(Reply::kGENERAL_FAILURE)\<close> of a
  callback entered in state \<open>s\<close>.
\<close>

definition failed :: "session \<Rightarrow> bool \<times> session \<Rightarrow> bool" where
  "failed s r \<longleftrightarrow> \<not> fst r \<and> replies (snd r) = replies s @ [GENERAL_FAILURE]
                  \<and> state (snd r) = FLUSHING_INCOMING"

text \<open>
  The two cipher states \<open>kdf_obfs2\<close> installs for the seeds of a session, if SHA-256
  succeeds on both inputs.
\<close>

definition session_keys :: "crypto \<Rightarrow> session \<Rightarrow> (aes_ctr \<times> aes_ctr) option" where
  "session_keys c s =
     (case sha256 c (init_data @ (init_seed s @ resp_seed s) @ init_data) of
        None \<Rightarrow> None
      | Some hi \<Rightarrow>
          (case sha256 c (resp_data @ (init_seed s @ resp_seed s) @ resp_data) of
             None \<Rightarrow> None
           | Some hr \<Rightarrow> Some (keyed_from (be_bytes 32 hi), keyed_from (be_bytes 32 hr))))"

section \<open>Sample instances\<close>

text \<open>
  Closed instances of the parameters, used where a statement is evaluated at a concrete
  input.  The sample digest ends in the first byte of its input and the length of the
  input, after thirty zero bytes; the sample block function adds the bytes of the key to
  the counter block and repeats the sum over the sixteen bytes of the block; no primitive
  fails.
\<close>

definition sample_crypto :: crypto where
  "sample_crypto =
     \<lparr>sha256 = (\<lambda>xs. Some (256 * (case xs of [] \<Rightarrow> 0 | x # _ \<Rightarrow> ucast x)
                           + of_nat (length xs))),
      aes128 = (\<lambda>k b. (b + ucast (sum_list k)) * 0x01010101010101010101010101010101),
      set_state_fails = (\<lambda>k iv. False),
      process_fails = (\<lambda>st xs. False)\<rparr>"

definition idle :: bufferevent where
  "idle = \<lparr>ev_input = [], ev_output = [], ok_calls = None\<rparr>"

definition sample_session :: session where
  "sample_session =
     \<lparr>state = CONNECTING, incoming = idle, outgoing = idle,
      rand = \<lparr>tape = replicate 16 0x11 @ [0x22], pad_draw = 1\<rparr>,
      init_seed = replicate 16 0, resp_seed = replicate 16 0,
      initiator_aes = unkeyed, responder_aes = unkeyed,
      received_seed_hdr = False, resp_pad_len = 0, replies = []\<rparr>"

definition sample_obfs2client :: obfs2client where
  "sample_obfs2client =
     \<lparr>state = CONNECTING, incoming = idle, outgoing = idle,
      rand = \<lparr>tape = replicate 16 0x11, pad_draw = 0\<rparr>,
      init_seed = replicate 16 0, resp_seed = replicate 16 0,
      initiator_aes = unkeyed, responder_aes = unkeyed,
      received_seed_hdr = False, resp_pad_len = 0, replies = [],
      evutil_rng = 1 ## 0 ## 0 ## 0 ## sconst 0x22\<rparr>"

text \<open>
  The sample session after \<open>on_outgoing_connected\<close>, a responder's handshake for it (seed,
  header announcing two bytes of padding, the padding), and the session once that
  handshake has been read.
\<close>

definition sample_connected :: session where
  "sample_connected =
     sample_session
       \<lparr>outgoing := \<lparr>ev_input = [],
                      ev_output = replicate 16 0x11
                                  @ [0xB8, 0x66, 0x59, 0xED, 0x93, 0x93, 0x93, 0x92] @ [0xB1],
                      ok_calls = None\<rparr>,
        rand := \<lparr>tape = [], pad_draw = 1\<rparr>,
        init_seed := replicate 16 0x11,
        initiator_aes := \<lparr>ctr_key = replicate 16 0, ctr_counter = 18762, ctr_num = 9\<rparr>\<rparr>"

definition sample_peer_handshake :: bytes where
  "sample_peer_handshake =
     replicate 16 0x33 @ [0xB7, 0x69, 0x56, 0xE2, 0x9C, 0x9C, 0x9C, 0x9E] @ [0xAA, 0xBB]"

definition sample_established :: session where
  "sample_established =
     sample_connected
       \<lparr>state := ESTABLISHED,
        resp_seed := replicate 16 0x33,
        initiator_aes := \<lparr>ctr_key = replicate 16 0, ctr_counter = 18770, ctr_num = 0\<rparr>,
        responder_aes := \<lparr>ctr_key = replicate 16 0, ctr_counter = 21074, ctr_num = 0\<rparr>,
        received_seed_hdr := True,
        replies := [SUCCEDED]\<rparr>"

text \<open>
  A data phase for the sample session: two chunks from the client, and in between and
  after them what the test peer sends back; the session at the end of it.
\<close>

definition sample_events :: "event list" where
  "sample_events =
     [From_client [1, 2, 3, 4, 5, 6, 7, 8, 9, 10],
      From_peer [165, 166, 167, 160, 161, 162, 163],
      From_client [11, 12, 13, 14, 15, 16, 17, 18, 19, 20],
      From_peer [172, 173, 174, 175, 168, 169, 170, 171, 66, 180, 183, 182, 177]]"

definition sample_spliced :: session where
  "sample_spliced =
     sample_established
       \<lparr>incoming := \<lparr>ev_input = [],
                      ev_output = [1, 2, 3, 4, 5, 6, 7, 8, 9, 10,
                                   11, 12, 13, 14, 15, 16, 17, 18, 19, 20],
                      ok_calls = None\<rparr>,
        outgoing := \<lparr>ev_input = [],
                      ev_output = replicate 16 0x11
                                  @ [0xB8, 0x66, 0x59, 0xED, 0x93, 0x93, 0x93, 0x92] @ [0xB1]
                                  @ [154, 153, 152, 159, 158, 157, 156, 147, 146, 145,
                                     144, 151, 150, 149, 148, 66, 141, 142, 143, 136],
                      ok_calls = None\<rparr>,
        initiator_aes := \<lparr>ctr_key = replicate 16 0, ctr_counter = 18771, ctr_num = 4\<rparr>,
        responder_aes := \<lparr>ctr_key = replicate 16 0, ctr_counter = 21075, ctr_num = 4\<rparr>\<rparr>"

text \<open>The sample session with the header read and one byte of padding still to come.\<close>

definition sample_padding_pending :: session where
  "sample_padding_pending =
     sample_established\<lparr>state := CONNECTING, resp_pad_len := 1, replies := []\<rparr>"

text \<open>The older class's sample session after \<open>on_outgoing_connected\<close>.\<close>

definition sample_obfs2client_connected :: obfs2client where
  "sample_obfs2client_connected =
     sample_obfs2client
       \<lparr>init_seed := replicate 16 0x11,
        rand := \<lparr>tape = [], pad_draw = 0\<rparr>,
        initiator_aes := \<lparr>ctr_key = replicate 16 0, ctr_counter = 18762, ctr_num = 8\<rparr>,
        evutil_rng := sconst 0x22,
        outgoing := \<lparr>ev_input = [],
                      ev_output = replicate 16 0x11
                                  @ [0xB8, 0x66, 0x59, 0xED, 0x93, 0x93, 0x93, 0x92] @ [0x22],
                      ok_calls = None\<rparr>\<rparr>"

text \<open>
  Two responder handshakes that must be refused: the first announces 9000 bytes of
  padding, the second has \<open>0xDEADBEEF\<close> in place of the magic value.  The older class's
  sample session after it has been handed the first.
\<close>

definition sample_oversized_header :: bytes where
  "sample_oversized_header = replicate 16 0x33 @ [0xB7, 0x69, 0x56, 0xE2, 0x9C, 0x9C, 0xBF, 0xB4]"

definition sample_bad_magic_header :: bytes where
  "sample_bad_magic_header = replicate 16 0x33 @ [0x42, 0x31, 0x22, 0x73, 0x9C, 0x9C, 0x9C, 0x9C]"

definition sample_obfs2client_rejected :: obfs2client where
  "sample_obfs2client_rejected =
     sample_obfs2client_connected
       \<lparr>state := FLUSHING_INCOMING,
        outgoing := \<lparr>ev_input = replicate 16 0x33 @ [0x2B, 0xF5, 0xCA, 0x7E, 0, 0, 0x23, 0x28],
                      ev_output = replicate 16 0x11
                                  @ [0xB8, 0x66, 0x59, 0xED, 0x93, 0x93, 0x93, 0x92] @ [0x22],
                      ok_calls = None\<rparr>,
        resp_seed := replicate 16 0x33,
        responder_aes := \<lparr>ctr_key = replicate 16 0, ctr_counter = 21066, ctr_num = 8\<rparr>,
        resp_pad_len := 9000,
        replies := [SOCKS4_REJECTED]\<rparr>"

section \<open>Theorems\<close>

subsection \<open>C4: shutdown stages\<close>

lemma sigint_cb_first:
  "nr_sigints s = 0 \<Longrightarrow>
   sigint_cb s = Some (s\<lparr>nr_sigints := 1, servers := map server_close (servers s)\<rparr>)"
  by (simp add: sigint_cb_def INT_MAX_def Let_def)

lemma sigint_cb_second:
  "nr_sigints s = 1 \<Longrightarrow>
   sigint_cb s =
     Some (s\<lparr>nr_sigints := 2, servers := map close_sessions (servers s), loop_broken := True\<rparr>)"
  by (simp add: sigint_cb_def INT_MAX_def Let_def event_base_loopbreak_def)

lemma sigint_cb_later:
  "2 \<le> nr_sigints s \<Longrightarrow> nr_sigints s < INT_MAX \<Longrightarrow>
   sigint_cb s = Some (s\<lparr>nr_sigints := nr_sigints s + 1, loop_broken := True\<rparr>)"
  by (simp add: sigint_cb_def Let_def event_base_loopbreak_def)

text \<open>
  C4 (as stated, refuted).  The claim has the event loop broken only on the third signal.
  With one listener that has one live session, the second delivery of the trigger already
  leaves the loop broken, and of three pending signals only two reach the callback.
\<close>

theorem C4_loop_broken_on_second_signal:
  "Option.bind (sigint_cb (main_init [\<lparr>accepting = True, sessions = [7]\<rparr>])) sigint_cb
     = Some \<lparr>nr_sigints = 2, servers = [\<lparr>accepting = False, sessions = []\<rparr>],
             loop_broken = True\<rparr>
   \<and> dispatch 3 (main_init [\<lparr>accepting = True, sessions = [7]\<rparr>])
     = Some (\<lparr>nr_sigints = 2, servers = [\<lparr>accepting = False, sessions = []\<rparr>],
              loop_broken = True\<rparr>, 2)"
  by (simp add: main_init_def sigint_cb_def INT_MAX_def Let_def event_base_loopbreak_def
      server_close_def close_sessions_def numeral_3_eq_3)

text \<open>
  C4 (amended).  Starting from a running loop with \<open>nr_sigints = 0\<close>: the first signal
  calls \<open>close\<close> on every server, keeps every server's sessions and leaves the loop
  running; the second signal calls \<open>close_sessions\<close> on every server and breaks the
  event loop in the same callback; every later callback (short of overflowing the
  counter) breaks the loop as well and touches no server.
\<close>

theorem C4_shutdown_stages:
  assumes "nr_sigints s = 0" and "\<not> loop_broken s"
  shows "\<exists>s1 s2.
           sigint_cb s = Some s1
         \<and> servers s1 = map server_close (servers s)
         \<and> map sessions (servers s1) = map sessions (servers s)
         \<and> \<not> loop_broken s1
         \<and> sigint_cb s1 = Some s2
         \<and> servers s2 = map close_sessions (servers s1)
         \<and> loop_broken s2
         \<and> (\<forall>t. 2 \<le> nr_sigints t \<and> nr_sigints t < INT_MAX \<longrightarrow>
                (\<exists>t'. sigint_cb t = Some t' \<and> loop_broken t' \<and> servers t' = servers t))"
proof -
  let ?s1 = "s\<lparr>nr_sigints := 1, servers := map server_close (servers s)\<rparr>"
  let ?s2 = "?s1\<lparr>nr_sigints := 2, servers := map close_sessions (servers ?s1),
                 loop_broken := True\<rparr>"
  have a: "sigint_cb s = Some ?s1"
    using assms(1) by (rule sigint_cb_first)
  have b: "sigint_cb ?s1 = Some ?s2"
    by (rule sigint_cb_second) simp
  have c: "map sessions (servers ?s1) = map sessions (servers s)"
    by (simp add: server_close_def comp_def)
  have d: "\<forall>t. 2 \<le> nr_sigints t \<and> nr_sigints t < INT_MAX \<longrightarrow>
                (\<exists>t'. sigint_cb t = Some t' \<and> loop_broken t' \<and> servers t' = servers t)"
    by (simp add: sigint_cb_later)
  from a b c d assms(2) show ?thesis
    by simp
qed

theorem C4_shutdown_stages_witness:
  "nr_sigints (main_init [\<lparr>accepting = True, sessions = [7]\<rparr>]) = 0
   \<and> \<not> loop_broken (main_init [\<lparr>accepting = True, sessions = [7]\<rparr>])
   \<and> (\<exists>s1 s2.
         sigint_cb (main_init [\<lparr>accepting = True, sessions = [7]\<rparr>]) = Some s1
       \<and> servers s1 = [\<lparr>accepting = False, sessions = [7]\<rparr>]
       \<and> \<not> loop_broken s1
       \<and> sigint_cb s1 = Some s2
       \<and> servers s2 = [\<lparr>accepting = False, sessions = []\<rparr>]
       \<and> loop_broken s2)
   \<and> (\<exists>t'. sigint_cb \<lparr>nr_sigints = 2, servers = [\<lparr>accepting = False, sessions = []\<rparr>],
                        loop_broken = True\<rparr> = Some t'
          \<and> loop_broken t'
          \<and> servers t' = [\<lparr>accepting = False, sessions = []\<rparr>])"
proof -
  let ?s = "main_init [\<lparr>accepting = True, sessions = [7]\<rparr>]"
  let ?t = "\<lparr>nr_sigints = 2, servers = [\<lparr>accepting = False, sessions = []\<rparr>],
             loop_broken = True\<rparr>"
  have h1: "nr_sigints ?s = 0" and h2: "\<not> loop_broken ?s"
    by (simp_all add: main_init_def)
  from C4_shutdown_stages [OF h1 h2] obtain s1 s2 where
    "sigint_cb ?s = Some s1" "servers s1 = map server_close (servers ?s)"
    "\<not> loop_broken s1" "sigint_cb s1 = Some s2"
    "servers s2 = map close_sessions (servers s1)" "loop_broken s2"
    and later: "\<forall>t. 2 \<le> nr_sigints t \<and> nr_sigints t < INT_MAX \<longrightarrow>
                 (\<exists>t'. sigint_cb t = Some t' \<and> loop_broken t' \<and> servers t' = servers t)"
    by blast
  then have stages: "sigint_cb ?s = Some s1
       \<and> servers s1 = [\<lparr>accepting = False, sessions = [7]\<rparr>]
       \<and> \<not> loop_broken s1
       \<and> sigint_cb s1 = Some s2
       \<and> servers s2 = [\<lparr>accepting = False, sessions = []\<rparr>]
       \<and> loop_broken s2"
    by (simp add: main_init_def server_close_def close_sessions_def)
  from later [rule_format, of ?t]
  have "\<exists>t'. sigint_cb ?t = Some t' \<and> loop_broken t'
          \<and> servers t' = [\<lparr>accepting = False, sessions = []\<rparr>]"
    by (simp add: INT_MAX_def)
  with stages h1 h2 show ?thesis by blast
qed

subsection \<open>C5: the padding length of the older class\<close>

lemma stake4: "stake 4 s = [shd s, shd (stl s), shd (stl (stl s)), shd (stl (stl (stl s)))]"
proof -
  have "stake (Suc (Suc (Suc (Suc 0)))) s
          = [shd s, shd (stl s), shd (stl (stl s)), shd (stl (stl (stl s)))]"
    by simp
  then show ?thesis by (simp add: eval_nat_numeral)
qed

lemma sdrop4: "sdrop 4 s = stl (stl (stl (stl s)))"
proof -
  have "sdrop (Suc (Suc (Suc (Suc 0)))) s = stl (stl (stl (stl s)))"
    by simp
  then show ?thesis by (simp add: eval_nat_numeral)
qed

text \<open>Whatever the loop hands on is at most \<open>kMaxPadding\<close>.\<close>

lemma gen_padlen_loop_bound:
  assumes "gen_padlen_loop rng = Some r"
  shows "unat (fst r) \<le> kMaxPadding"
proof (rule gen_padlen_loop.raw_induct
    [where P = "\<lambda>rng r. unat (fst r) \<le> kMaxPadding", OF _ assms])
  fix loop :: "byte stream \<Rightarrow> (32 word \<times> byte stream) option" and rng y
  assume IH: "\<And>rng y. loop rng = Some y \<Longrightarrow> unat (fst y) \<le> kMaxPadding"
    and body: "(let (raw, rng') = evutil_secure_rng_get_bytes 4 rng;
                    ret = le_word32 raw AND 0x2fff
                in if unat ret > kMaxPadding then loop rng' else Some (ret, rng')) = Some y"
  from body show "unat (fst y) \<le> kMaxPadding"
    by (auto simp: Let_def dest: IH split: prod.splits if_splits)
qed

lemma gen_padlen_returns_below:
  "gen_padlen rng = Some (Inr v, rng') \<Longrightarrow> unat v < kMaxPadding"
  by (auto simp: gen_padlen_def split: if_splits)

text \<open>
  C5.  Every value \<open>gen_padlen\<close> returns lies in \<open>[0, 8192]\<close>, and the claim has the
  assertion before the \<open>return\<close> hold for every value that leaves the rejection loop.
  The loop lets 8192 through (\<open>8192 > kMaxPadding\<close> is false) and the assertion demands
  \<open>ret < kMaxPadding\<close>.  When the generator delivers the bytes \<open>00 20 00 00\<close>, the masked
  value is \<open>0x2000 = 8192\<close>: the loop ends with it and the assertion fails.
\<close>

theorem C5_assertion_fails_at_8192:
  "gen_padlen_loop (0 ## 0x20 ## 0 ## 0 ## sconst 0) = Some (8192, sconst 0)
   \<and> gen_padlen (0 ## 0x20 ## 0 ## 0 ## sconst 0) = Some (Inl Assertion_failed, sconst 0)"
  by (simp add: gen_padlen_def gen_padlen_loop.simps evutil_secure_rng_get_bytes_def
      le_word32_def be_word_def kMaxPadding_def stake4 sdrop4)

subsection \<open>C6: the MAC\<close>

lemma length_be_bytes: "length (be_bytes n w) = n"
  by (simp add: be_bytes_def)

lemma mac_Some:
  "k \<noteq> [] \<Longrightarrow> m \<noteq> [] \<Longrightarrow> length d = kDigestLength \<Longrightarrow>
   mac c (Some k) (Some m) d = map_option (be_bytes kDigestLength) (sha256 c (k @ m @ k))"
  by (simp add: mac_def)

lemma length_mac:
  "mac c key buf d = Some h \<Longrightarrow> length h = kDigestLength"
  by (auto simp: mac_def length_be_bytes split: option.splits if_splits)

text \<open>
  C6.  \<open>mac\<close> returns false exactly when the key is null or empty, the message is null or
  empty, the digest buffer is not 32 bytes long, or SHA-256 fails on \<open>K \<parallel> M \<parallel> K\<close>; in
  every other case it succeeds, and the digest buffer then holds the 32 bytes of
  \<open>SHA-256(K \<parallel> M \<parallel> K)\<close>.
\<close>

theorem C6_mac:
  "(mac c key buf digest = None \<longleftrightarrow>
      key = None \<or> key = Some [] \<or> buf = None \<or> buf = Some [] \<or>
      length digest \<noteq> 32 \<or> sha256 c (the key @ the buf @ the key) = None)
   \<and> (\<forall>h. mac c key buf digest = Some h \<longrightarrow>
        (\<exists>w. sha256 c (the key @ the buf @ the key) = Some w \<and> h = be_bytes 32 w)
        \<and> length h = 32)"
  by (auto simp: mac_def kDigestLength_def length_be_bytes split: option.splits)

theorem C6_mac_witness:
  "mac sample_crypto (Some [1]) (Some [2, 3]) (replicate 32 0)
       = Some (be_bytes 32 (260 :: 256 word))
   \<and> length (be_bytes 32 (260 :: 256 word)) = 32
   \<and> mac sample_crypto (Some [1]) (Some []) (replicate 32 0) = None"
proof -
  have sha: "sha256 sample_crypto ([1] @ [2, 3] @ [1]) = Some (260)"
    by (simp add: sample_crypto_def)
  have "mac sample_crypto (Some [1]) (Some [2, 3]) (replicate 32 0) \<noteq> None"
    using C6_mac [of sample_crypto "Some [1]" "Some [2, 3]" "replicate 32 0"] sha
    by simp
  then obtain h where h: "mac sample_crypto (Some [1]) (Some [2, 3]) (replicate 32 0) = Some h"
    by blast
  with C6_mac [of sample_crypto "Some [1]" "Some [2, 3]" "replicate 32 0"] sha
  have "h = be_bytes 32 (260 :: 256 word)" and "length h = 32"
    by auto
  moreover have "mac sample_crypto (Some [1]) (Some []) (replicate 32 0) = None"
    using C6_mac [of sample_crypto "Some [1]" "Some []" "replicate 32 0"]
    by simp
  ultimately show ?thesis
    using h by simp
qed

subsection \<open>C7: the key derivation\<close>

lemma init_data_nonempty: "init_data \<noteq> []"
  by (simp add: init_data_def)

lemma resp_data_nonempty: "resp_data \<noteq> []"
  by (simp add: resp_data_def)

text \<open>
  C7.  With two 16-byte seeds and no primitive failing, \<open>kdf_obfs2\<close> computes
  \<open>INIT_SECRET = MAC("Initiator obfuscated data", INIT_SEED \<parallel> RESP_SEED)\<close> and
  \<open>RESP_SECRET = MAC("Responder obfuscated data", INIT_SEED \<parallel> RESP_SEED)\<close>, each 32 bytes
  long, and returns true with the initiator cipher keyed by the first 16 bytes of
  \<open>INIT_SECRET\<close>, its counter the last 16 bytes, and the responder cipher likewise from
  \<open>RESP_SECRET\<close>.  For two all-zero seeds \<open>INIT_SECRET\<close> is
  \<open>SHA-256("Initiator obfuscated data" \<parallel> 0x00\<times>32 \<parallel> "Initiator obfuscated data")\<close>.
\<close>

theorem C7_kdf:
  assumes seeds: "length (init_seed s) = kSeedLength" "length (resp_seed s) = kSeedLength"
    and hi: "sha256 c (init_data @ (init_seed s @ resp_seed s) @ init_data) = Some hi"
    and hr: "sha256 c (resp_data @ (init_seed s @ resp_seed s) @ resp_data) = Some hr"
    and ki: "\<not> set_state_fails c (take 16 (be_bytes 32 hi)) (drop 16 (be_bytes 32 hi))"
    and kr: "\<not> set_state_fails c (take 16 (be_bytes 32 hr)) (drop 16 (be_bytes 32 hr))"
  shows "mac c (Some init_data) (Some (init_seed s @ resp_seed s)) (replicate 32 0)
           = Some (be_bytes 32 hi)
       \<and> mac c (Some resp_data) (Some (init_seed s @ resp_seed s)) (be_bytes 32 hi)
           = Some (be_bytes 32 hr)
       \<and> length (be_bytes 32 hi) = 32 \<and> length (be_bytes 32 hr) = 32
       \<and> kdf_obfs2 c s =
           (True, s\<lparr>initiator_aes :=
                      \<lparr>ctr_key = take 16 (be_bytes 32 hi),
                       ctr_counter = be_word (drop 16 (be_bytes 32 hi)), ctr_num = 0\<rparr>,
                    responder_aes :=
                      \<lparr>ctr_key = take 16 (be_bytes 32 hr),
                       ctr_counter = be_word (drop 16 (be_bytes 32 hr)), ctr_num = 0\<rparr>\<rparr>)
       \<and> (init_seed s = replicate 16 0 \<and> resp_seed s = replicate 16 0 \<longrightarrow>
            sha256 c (init_data @ replicate 32 0 @ init_data) = Some hi)"
proof -
  have ne: "init_seed s @ resp_seed s \<noteq> []"
    using seeds by (auto simp: kSeedLength_def)
  have m1: "mac c (Some init_data) (Some (init_seed s @ resp_seed s)) (replicate 32 0)
              = Some (be_bytes 32 hi)"
    using mac_Some [OF init_data_nonempty ne, of "replicate 32 0" c] hi
    by (simp add: kDigestLength_def)
  have m2: "mac c (Some resp_data) (Some (init_seed s @ resp_seed s)) (be_bytes 32 hi)
              = Some (be_bytes 32 hr)"
    using mac_Some [OF resp_data_nonempty ne, of "be_bytes 32 hi" c] hr
    by (simp add: kDigestLength_def length_be_bytes)
  have k: "kdf_obfs2 c s =
           (True, s\<lparr>initiator_aes :=
                      \<lparr>ctr_key = take 16 (be_bytes 32 hi),
                       ctr_counter = be_word (drop 16 (be_bytes 32 hi)), ctr_num = 0\<rparr>,
                    responder_aes :=
                      \<lparr>ctr_key = take 16 (be_bytes 32 hr),
                       ctr_counter = be_word (drop 16 (be_bytes 32 hr)), ctr_num = 0\<rparr>\<rparr>)"
    using m1 m2 ki kr
    by (simp add: kdf_obfs2_def Let_def kDigestLength_def kAes128KeyLength_def set_state_def)
  have z: "init_seed s = replicate 16 0 \<and> resp_seed s = replicate 16 0 \<longrightarrow>
            sha256 c (init_data @ replicate 32 0 @ init_data) = Some hi"
  proof
    assume a: "init_seed s = replicate 16 0 \<and> resp_seed s = replicate 16 0"
    have "replicate 16 (0::byte) @ replicate 16 0 = replicate 32 0"
      by (simp add: replicate_add [symmetric])
    with a hi show "sha256 c (init_data @ replicate 32 0 @ init_data) = Some hi"
      by simp
  qed
  from m1 m2 k z show ?thesis
    by (simp add: length_be_bytes)
qed

lemma sample_sha_init:
  "sha256 sample_crypto (init_data @ replicate 32 0 @ init_data) = Some (18770)"
  by (simp add: sample_crypto_def init_data_def)

lemma sample_sha_resp:
  "sha256 sample_crypto (resp_data @ replicate 32 0 @ resp_data) = Some (21074)"
  by (simp add: sample_crypto_def resp_data_def)

lemma sample_secret_init:
  "be_bytes 32 (18770 :: 256 word) = replicate 30 0 @ [0x49, 0x52]"
  by code_simp

lemma sample_secret_resp:
  "be_bytes 32 (21074 :: 256 word) = replicate 30 0 @ [0x52, 0x52]"
  by code_simp

lemma sample_keyed_init:
  "keyed_from (replicate 30 0 @ [0x49, 0x52])
     = \<lparr>ctr_key = replicate 16 0, ctr_counter = 18770, ctr_num = 0\<rparr>"
  by code_simp

lemma sample_keyed_resp:
  "keyed_from (replicate 30 0 @ [0x52, 0x52])
     = \<lparr>ctr_key = replicate 16 0, ctr_counter = 21074, ctr_num = 0\<rparr>"
  by code_simp

theorem C7_kdf_witness:
  "length (init_seed sample_session) = kSeedLength
   \<and> length (resp_seed sample_session) = kSeedLength
   \<and> sha256 sample_crypto (init_data @ replicate 32 0 @ init_data)
       = Some (18770)
   \<and> sha256 sample_crypto (resp_data @ replicate 32 0 @ resp_data)
       = Some (21074)
   \<and> kdf_obfs2 sample_crypto sample_session =
       (True, sample_session
          \<lparr>initiator_aes := \<lparr>ctr_key = replicate 16 0, ctr_counter = 18770, ctr_num = 0\<rparr>,
           responder_aes := \<lparr>ctr_key = replicate 16 0, ctr_counter = 21074, ctr_num = 0\<rparr>\<rparr>)"
proof -
  let ?hi = "18770 :: 256 word"
  let ?hr = "21074 :: 256 word"
  have s1: "length (init_seed sample_session) = kSeedLength"
    and s2: "length (resp_seed sample_session) = kSeedLength"
    by (simp_all add: sample_session_def kSeedLength_def)
  have z: "init_seed sample_session @ resp_seed sample_session = replicate 32 0"
    by (simp add: sample_session_def replicate_add [symmetric])
  have hi: "sha256 sample_crypto
              (init_data @ (init_seed sample_session @ resp_seed sample_session) @ init_data)
            = Some ?hi"
    unfolding z by (rule sample_sha_init)
  have hr: "sha256 sample_crypto
              (resp_data @ (init_seed sample_session @ resp_seed sample_session) @ resp_data)
            = Some ?hr"
    unfolding z by (rule sample_sha_resp)
  have ki: "\<not> set_state_fails sample_crypto (take 16 (be_bytes 32 ?hi)) (drop 16 (be_bytes 32 ?hi))"
    and kr: "\<not> set_state_fails sample_crypto (take 16 (be_bytes 32 ?hr)) (drop 16 (be_bytes 32 ?hr))"
    by (simp_all add: sample_crypto_def)
  have ai: "\<lparr>ctr_key = take 16 (be_bytes 32 ?hi),
             ctr_counter = be_word (drop 16 (be_bytes 32 ?hi)), ctr_num = 0\<rparr>
            = \<lparr>ctr_key = replicate 16 0, ctr_counter = 18770, ctr_num = 0\<rparr>"
    using sample_keyed_init
    by (simp only: sample_secret_init keyed_from_def kAes128KeyLength_def)
  have ar: "\<lparr>ctr_key = take 16 (be_bytes 32 ?hr),
             ctr_counter = be_word (drop 16 (be_bytes 32 ?hr)), ctr_num = 0\<rparr>
            = \<lparr>ctr_key = replicate 16 0, ctr_counter = 21074, ctr_num = 0\<rparr>"
    using sample_keyed_resp
    by (simp only: sample_secret_resp keyed_from_def kAes128KeyLength_def)
  from C7_kdf [OF s1 s2 hi hr ki kr]
  have "kdf_obfs2 sample_crypto sample_session =
       (True, sample_session
          \<lparr>initiator_aes := \<lparr>ctr_key = replicate 16 0, ctr_counter = 18770, ctr_num = 0\<rparr>,
           responder_aes := \<lparr>ctr_key = replicate 16 0, ctr_counter = 21074, ctr_num = 0\<rparr>\<rparr>)"
    unfolding ai ar by simp
  with s1 s2 sample_sha_init sample_sha_resp show ?thesis by simp
qed

subsection \<open>C10: nothing to do on an empty buffer\<close>

text \<open>
  C10.  In state ESTABLISHED, \<open>on_incoming_data\<close> called with an empty input buffer on
  the incoming endpoint, and \<open>on_outgoing_data\<close> called with an empty input buffer on the
  outgoing endpoint, return true and leave the whole session as it was: no cipher has
  moved, nothing was written, the session was not closed.
\<close>

theorem C10_empty:
  assumes "state s = ESTABLISHED"
  shows "(ev_input (incoming s) = [] \<longrightarrow> on_incoming_data c s = Inr (True, s))
       \<and> (ev_input (outgoing s) = [] \<longrightarrow> on_outgoing_data c s = Inr (True, s))"
  using assms
  by (simp add: on_incoming_data_def on_outgoing_data_def evbuffer_get_length_def)

theorem C10_empty_witness:
  "state (sample_session\<lparr>state := ESTABLISHED\<rparr>) = ESTABLISHED
   \<and> ev_input (incoming (sample_session\<lparr>state := ESTABLISHED\<rparr>)) = []
   \<and> ev_input (outgoing (sample_session\<lparr>state := ESTABLISHED\<rparr>)) = []
   \<and> on_incoming_data sample_crypto (sample_session\<lparr>state := ESTABLISHED\<rparr>)
       = Inr (True, sample_session\<lparr>state := ESTABLISHED\<rparr>)
   \<and> on_outgoing_data sample_crypto (sample_session\<lparr>state := ESTABLISHED\<rparr>)
       = Inr (True, sample_session\<lparr>state := ESTABLISHED\<rparr>)"
proof -
  let ?s = "sample_session\<lparr>state := ESTABLISHED\<rparr>"
  have st: "state ?s = ESTABLISHED" by simp
  have e1: "ev_input (incoming ?s) = []" and e2: "ev_input (outgoing ?s) = []"
    by (simp_all add: sample_session_def idle_def)
  from C10_empty [OF st, of sample_crypto] e1 e2 st show ?thesis
    by simp
qed

subsection \<open>C1: the splice is a round trip\<close>

lemma ctr_xor_length: "length (snd (ctr_xor c st xs)) = length xs"
  by (induction xs arbitrary: st) (simp_all add: case_prod_unfold Let_def)

lemma ctr_xor_append:
  "ctr_xor c st (xs @ ys) =
     (fst (ctr_xor c (fst (ctr_xor c st xs)) ys),
      snd (ctr_xor c st xs) @ snd (ctr_xor c (fst (ctr_xor c st xs)) ys))"
  by (induction xs arbitrary: st) (simp_all add: case_prod_unfold Let_def)

lemma ctr_xor_involution: "snd (ctr_xor c st (snd (ctr_xor c st xs))) = xs"
  by (induction xs arbitrary: st) (simp_all add: case_prod_unfold Let_def xor.assoc)

lemma ev_call_fields:
  "ev_call e = Some e' \<Longrightarrow> ev_input e' = ev_input e \<and> ev_output e' = ev_output e"
  by (auto simp: ev_call_def split: option.splits nat.splits)

lemma on_incoming_data_ok:
  assumes "on_incoming_data c s = Inr (True, s')"
  shows "state s = ESTABLISHED \<and> state s' = ESTABLISHED
       \<and> ev_output (outgoing s') =
           ev_output (outgoing s) @ snd (ctr_xor c (initiator_aes s) (ev_input (incoming s)))
       \<and> initiator_aes s' = fst (ctr_xor c (initiator_aes s) (ev_input (incoming s)))
       \<and> ev_input (incoming s') = []
       \<and> ev_output (incoming s') = ev_output (incoming s)
       \<and> ev_input (outgoing s') = ev_input (outgoing s)
       \<and> responder_aes s' = responder_aes s"
proof (cases "ev_input (incoming s) = []")
  case True
  with assms show ?thesis
    by (auto simp: on_incoming_data_def evbuffer_get_length_def split: if_splits)
next
  case False
  with assms show ?thesis
    by (auto simp: on_incoming_data_def evbuffer_get_length_def evbuffer_pullup_def
        bufferevent_write_buffer_def process_def Let_def close_session_def
        dest!: ev_call_fields split: if_splits option.splits prod.splits)
qed

lemma on_outgoing_data_ok:
  assumes "on_outgoing_data c s = Inr (True, s')"
  shows "state s = ESTABLISHED \<and> state s' = ESTABLISHED
       \<and> ev_output (incoming s') =
           ev_output (incoming s) @ snd (ctr_xor c (responder_aes s) (ev_input (outgoing s)))
       \<and> responder_aes s' = fst (ctr_xor c (responder_aes s) (ev_input (outgoing s)))
       \<and> ev_input (outgoing s') = []
       \<and> ev_output (outgoing s') = ev_output (outgoing s)
       \<and> ev_input (incoming s') = ev_input (incoming s)
       \<and> initiator_aes s' = initiator_aes s"
proof (cases "ev_input (outgoing s) = []")
  case True
  with assms show ?thesis
    by (auto simp: on_outgoing_data_def evbuffer_get_length_def split: if_splits)
next
  case False
  with assms show ?thesis
    by (auto simp: on_outgoing_data_def evbuffer_get_length_def evbuffer_pullup_def
        bufferevent_write_buffer_def process_def Let_def close_session_def
        dest!: ev_call_fields split: if_splits option.splits prod.splits)
qed

lemma splice_outputs:
  assumes "splice c s evs = Some s'"
    and "ev_input (incoming s) = []" and "ev_input (outgoing s) = []"
  shows "ev_output (outgoing s') =
           ev_output (outgoing s) @ snd (ctr_xor c (initiator_aes s) (client_bytes evs))
       \<and> ev_output (incoming s') =
           ev_output (incoming s) @ snd (ctr_xor c (responder_aes s) (peer_bytes evs))"
  using assms
proof (induction c s evs rule: splice.induct)
  case (1 c s)
  then show ?case by simp
next
  case (2 c s x evs)
  let ?t = "s\<lparr>incoming := feed (incoming s) x\<rparr>"
  from "2.prems"(1) obtain t' where
    t: "on_incoming_data c ?t = Inr (True, t')" and r: "splice c t' evs = Some s'"
    by (auto split: sum.splits prod.splits bool.splits)
  from on_incoming_data_ok [OF t] "2.prems"(2,3)
  have f: "ev_output (outgoing t') = ev_output (outgoing s) @ snd (ctr_xor c (initiator_aes s) x)"
    "initiator_aes t' = fst (ctr_xor c (initiator_aes s) x)"
    "ev_input (incoming t') = []" "ev_output (incoming t') = ev_output (incoming s)"
    "ev_input (outgoing t') = []" "responder_aes t' = responder_aes s"
    by (simp_all add: feed_def)
  from "2.IH" [OF t refl refl r f(3) f(5)] f show ?case
    by (simp add: ctr_xor_append)
next
  case (3 c s y evs)
  let ?t = "s\<lparr>outgoing := feed (outgoing s) y\<rparr>"
  from "3.prems"(1) obtain t' where
    t: "on_outgoing_data c ?t = Inr (True, t')" and r: "splice c t' evs = Some s'"
    by (auto split: sum.splits prod.splits bool.splits)
  from on_outgoing_data_ok [OF t] "3.prems"(2,3)
  have f: "ev_output (incoming t') = ev_output (incoming s) @ snd (ctr_xor c (responder_aes s) y)"
    "responder_aes t' = fst (ctr_xor c (responder_aes s) y)"
    "ev_input (outgoing t') = []" "ev_output (outgoing t') = ev_output (outgoing s)"
    "ev_input (incoming t') = []" "initiator_aes t' = initiator_aes s"
    by (simp_all add: feed_def)
  from "3.IH" [OF t refl refl r f(5) f(3)] f show ?case
    by (simp add: ctr_xor_append)
qed

lemma splice_ciphers:
  assumes "splice c s evs = Some s'"
    and "ev_input (incoming s) = []" and "ev_input (outgoing s) = []"
  shows "initiator_aes s' = fst (ctr_xor c (initiator_aes s) (client_bytes evs))
       \<and> responder_aes s' = fst (ctr_xor c (responder_aes s) (peer_bytes evs))"
  using assms
proof (induction c s evs rule: splice.induct)
  case (1 c s)
  then show ?case by simp
next
  case (2 c s x evs)
  let ?t = "s\<lparr>incoming := feed (incoming s) x\<rparr>"
  from "2.prems"(1) obtain t' where
    t: "on_incoming_data c ?t = Inr (True, t')" and r: "splice c t' evs = Some s'"
    by (auto split: sum.splits prod.splits bool.splits)
  from on_incoming_data_ok [OF t] "2.prems"(2,3)
  have f: "initiator_aes t' = fst (ctr_xor c (initiator_aes s) x)"
    "ev_input (incoming t') = []" "ev_input (outgoing t') = []"
    "responder_aes t' = responder_aes s"
    by (simp_all add: feed_def)
  from "2.IH" [OF t refl refl r f(2) f(3)] f show ?case
    by (simp add: ctr_xor_append)
next
  case (3 c s y evs)
  let ?t = "s\<lparr>outgoing := feed (outgoing s) y\<rparr>"
  from "3.prems"(1) obtain t' where
    t: "on_outgoing_data c ?t = Inr (True, t')" and r: "splice c t' evs = Some s'"
    by (auto split: sum.splits prod.splits bool.splits)
  from on_outgoing_data_ok [OF t] "3.prems"(2,3)
  have f: "responder_aes t' = fst (ctr_xor c (responder_aes s) y)"
    "ev_input (outgoing t') = []" "ev_input (incoming t') = []"
    "initiator_aes t' = initiator_aes s"
    by (simp_all add: feed_def)
  from "3.IH" [OF t refl refl r f(3) f(2)] f show ?case
    by (simp add: ctr_xor_append)
qed

text \<open>
  C1.  Take a run of the data phase from buffers that are empty, in which every callback
  returns true: chunks from the client and chunks from the peer arrive in any order and of
  any sizes.  What \<open>on_incoming_data\<close> has put on the wire is the client's bytes under
  the keystream of the initiator cipher, and what \<open>on_outgoing_data\<close> has delivered to the
  client is the peer's bytes under the keystream of the responder cipher, each cipher
  going on from the state it had when the data phase began, whatever the chunking.  If
  all the peer has sent is what the test peer makes of the wire (the initiator keystream
  removed, the responder keystream applied, both from the cipher states the session
  started the data phase with), then the bytes delivered to the client are the bytes the
  client submitted.
\<close>

theorem C1_splice_round_trip:
  assumes run: "splice c s evs = Some s'"
    and empty: "ev_input (incoming s) = []" "ev_input (outgoing s) = []"
  shows "ev_output (outgoing s') =
           ev_output (outgoing s) @ snd (ctr_xor c (initiator_aes s) (client_bytes evs))
       \<and> initiator_aes s' = fst (ctr_xor c (initiator_aes s) (client_bytes evs))
       \<and> ev_output (incoming s') =
           ev_output (incoming s) @ snd (ctr_xor c (responder_aes s) (peer_bytes evs))
       \<and> responder_aes s' = fst (ctr_xor c (responder_aes s) (peer_bytes evs))
       \<and> (peer_bytes evs =
             peer_echo c (initiator_aes s) (responder_aes s)
               (drop (length (ev_output (outgoing s))) (ev_output (outgoing s'))) \<longrightarrow>
           ev_output (incoming s') = ev_output (incoming s) @ client_bytes evs)"
proof -
  from splice_outputs [OF run empty]
  have og: "ev_output (outgoing s') =
              ev_output (outgoing s) @ snd (ctr_xor c (initiator_aes s) (client_bytes evs))"
    and ic: "ev_output (incoming s') =
              ev_output (incoming s) @ snd (ctr_xor c (responder_aes s) (peer_bytes evs))"
    by simp_all
  from og have wire: "drop (length (ev_output (outgoing s))) (ev_output (outgoing s'))
                  = snd (ctr_xor c (initiator_aes s) (client_bytes evs))"
    by simp
  have rt: "peer_bytes evs =
             peer_echo c (initiator_aes s) (responder_aes s)
               (drop (length (ev_output (outgoing s))) (ev_output (outgoing s'))) \<longrightarrow>
           ev_output (incoming s') = ev_output (incoming s) @ client_bytes evs"
  proof
    assume "peer_bytes evs =
             peer_echo c (initiator_aes s) (responder_aes s)
               (drop (length (ev_output (outgoing s))) (ev_output (outgoing s')))"
    with wire have "peer_bytes evs = snd (ctr_xor c (responder_aes s) (client_bytes evs))"
      by (simp add: peer_echo_def ctr_xor_involution)
    with ic show "ev_output (incoming s') = ev_output (incoming s) @ client_bytes evs"
      by (simp add: ctr_xor_involution)
  qed
  from og ic rt splice_ciphers [OF run empty] show ?thesis
    by simp
qed

subsection \<open>The handshake read by the client\<close>

lemma set_state_Some:
  "set_state c (take kAes128KeyLength h) (drop kAes128KeyLength h) = Some a \<Longrightarrow> a = keyed_from h"
  by (auto simp: set_state_def keyed_from_def split: if_splits)

lemma mac_Some_sha:
  "mac c (Some k) (Some m) d = Some h \<Longrightarrow>
   \<exists>w. sha256 c (k @ m @ k) = Some w \<and> h = be_bytes 32 w"
  by (auto simp: mac_def kDigestLength_def split: if_splits)

lemma send_failure:
  "send_socks5_response GENERAL_FAILURE s = (b, s') \<Longrightarrow>
   \<not> b \<and> replies s' = replies s @ [GENERAL_FAILURE] \<and> state s' = FLUSHING_INCOMING"
  by (auto simp: send_socks5_response_def)

lemma kdf_obfs2_True:
  assumes "kdf_obfs2 c s = (True, s')"
  shows "\<exists>hi hr.
           sha256 c (init_data @ (init_seed s @ resp_seed s) @ init_data) = Some hi
         \<and> sha256 c (resp_data @ (init_seed s @ resp_seed s) @ resp_data) = Some hr
         \<and> s' = s\<lparr>initiator_aes := keyed_from (be_bytes 32 hi),
                   responder_aes := keyed_from (be_bytes 32 hr)\<rparr>"
  using assms
  by (auto simp: kdf_obfs2_def Let_def dest!: mac_Some_sha set_state_Some split: option.splits)

lemma kdf_obfs2_False:
  assumes "kdf_obfs2 c s = (False, s')"
  shows "state s' = state s \<and> replies s' = replies s"
  using assms
  by (auto simp: kdf_obfs2_def Let_def split: option.splits)

lemma evbuffer_remove_Some:
  "evbuffer_remove e n = Some (d, e') \<Longrightarrow>
   d = take n (ev_input e) \<and> ev_input e' = drop n (ev_input e) \<and> ev_output e' = ev_output e"
  by (auto simp: evbuffer_remove_def dest!: ev_call_fields)

lemma unat_ucast_32_64: "unat (ucast (p :: 32 word) :: 64 word) = unat p"
  by (simp add: unsigned_ucast_eq take_bit_nat_eq_self unsigned_less [THEN less_trans])

lemma failedI: "replies t = replies s \<Longrightarrow> failed s (send_socks5_response GENERAL_FAILURE t)"
  by (simp add: failed_def send_socks5_response_def)

lemma check_pad_hdr_Inl:
  "check_pad_hdr c h s = Inl r \<Longrightarrow> failed s r"
  by (auto simp: check_pad_hdr_def Let_def intro!: failedI dest!: kdf_obfs2_False
      split: if_splits prod.splits bool.splits)

lemma check_pad_hdr_Inr:
  assumes "check_pad_hdr c h s = Inr s'"
  shows "be_word (take 4 h) = kMagicValue \<and> unat (be_word (drop 4 h) :: 32 word) \<le> kMaxPadding
       \<and> (\<exists>hi hr.
             sha256 c (init_data @ (init_seed s @ resp_seed s) @ init_data) = Some hi
           \<and> sha256 c (resp_data @ (init_seed s @ resp_seed s) @ resp_data) = Some hr
           \<and> s' = s\<lparr>resp_pad_len := ucast (be_word (drop 4 h) :: 32 word),
                     initiator_aes := keyed_from (be_bytes 32 hi),
                     responder_aes := keyed_from (be_bytes 32 hr),
                     received_seed_hdr := True\<rparr>)"
  using assms
  by (auto simp: check_pad_hdr_def Let_def unat_ucast_32_64 dest!: kdf_obfs2_True
      split: if_splits prod.splits bool.splits)


lemma read_pad_hdr_Inl:
  "read_pad_hdr c s = Inl r \<Longrightarrow> failed s r"
  by (auto simp: read_pad_hdr_def Let_def failed_def
      dest!: check_pad_hdr_Inl
      split: if_splits option.splits prod.splits)
     (auto simp: send_socks5_response_def)

lemma read_pad_hdr_Inr:
  assumes "read_pad_hdr c s = Inr s'" and "8 \<le> length (ev_input (outgoing s))"
  shows "\<exists>aes h hi hr. \<exists>p :: 32 word.
           process c (responder_aes s) (take 8 (ev_input (outgoing s))) = Some (aes, h)
         \<and> be_word (take 4 h) = kMagicValue \<and> p = be_word (drop 4 h) \<and> unat p \<le> kMaxPadding
         \<and> sha256 c (init_data @ (init_seed s @ resp_seed s) @ init_data) = Some hi
         \<and> sha256 c (resp_data @ (init_seed s @ resp_seed s) @ resp_data) = Some hr
         \<and> resp_pad_len s' = ucast p
         \<and> initiator_aes s' = keyed_from (be_bytes 32 hi)
         \<and> responder_aes s' = keyed_from (be_bytes 32 hr)
         \<and> received_seed_hdr s'
         \<and> ev_input (outgoing s') = drop 8 (ev_input (outgoing s))
         \<and> ev_output (outgoing s') = ev_output (outgoing s)
         \<and> incoming s' = incoming s
         \<and> init_seed s' = init_seed s \<and> resp_seed s' = resp_seed s
         \<and> state s' = state s \<and> replies s' = replies s"
  using assms
  by (auto simp: read_pad_hdr_def Let_def
      dest!: check_pad_hdr_Inr evbuffer_remove_Some
      split: if_splits option.splits prod.splits)

lemma read_seed_hdr_Inl:
  assumes "read_seed_hdr c s = Inl r"
  shows "(r = (True, s) \<and> length (ev_input (outgoing s)) < 24) \<or> failed s r"
  using assms
  by (auto simp: read_seed_hdr_def Let_def evbuffer_get_length_def kSeedLength_def failed_def
      dest!: read_pad_hdr_Inl
      split: if_splits option.splits prod.splits)
     (auto simp: send_socks5_response_def)


lemma responder_header_eq:
  assumes "mac c (Some resp_mac_key) (Some (take kSeedLength buf)) (replicate kDigestLength 0) = Some k"
    and "set_state c (take kAes128KeyLength k) (drop kAes128KeyLength k) = Some aes"
    and "process c aes (take 8 (drop kSeedLength buf)) = Some (aes', h)"
  shows "responder_header c buf = Some (be_word (take 4 h), be_word (drop 4 h))"
  using assms by (simp add: responder_header_def)

lemma read_seed_hdr_Inr:
  assumes "read_seed_hdr c s = Inr s'"
  shows "24 \<le> length (ev_input (outgoing s))
       \<and> (\<exists>hi hr. \<exists>p :: 32 word.
             responder_header c (ev_input (outgoing s)) = Some (kMagicValue, p)
           \<and> unat p \<le> kMaxPadding
           \<and> resp_seed s' = take 16 (ev_input (outgoing s))
           \<and> sha256 c (init_data @ (init_seed s @ resp_seed s') @ init_data) = Some hi
           \<and> sha256 c (resp_data @ (init_seed s @ resp_seed s') @ resp_data) = Some hr
           \<and> resp_pad_len s' = ucast p
           \<and> initiator_aes s' = keyed_from (be_bytes 32 hi)
           \<and> responder_aes s' = keyed_from (be_bytes 32 hr))
       \<and> received_seed_hdr s'
       \<and> ev_input (outgoing s') = drop 24 (ev_input (outgoing s))
       \<and> ev_output (outgoing s') = ev_output (outgoing s)
       \<and> incoming s' = incoming s
       \<and> init_seed s' = init_seed s
       \<and> state s' = state s \<and> replies s' = replies s"
proof -
  let ?buf = "ev_input (outgoing s)"
  from assms have len: "24 \<le> length ?buf"
    by (auto simp: read_seed_hdr_def Let_def evbuffer_get_length_def kSeedLength_def
        split: if_splits)
  from assms len obtain og k aes where
    rm: "evbuffer_remove (outgoing s) kSeedLength = Some (take kSeedLength ?buf, og)"
    and mc: "mac c (Some resp_mac_key) (Some (take kSeedLength ?buf)) (replicate kDigestLength 0)
              = Some k"
    and st: "set_state c (take kAes128KeyLength k) (drop kAes128KeyLength k) = Some aes"
    and rp: "read_pad_hdr c (s\<lparr>outgoing := og, resp_seed := take kSeedLength ?buf,
                                responder_aes := aes\<rparr>) = Inr s'"
    by (auto simp: read_seed_hdr_def Let_def evbuffer_get_length_def kSeedLength_def
        dest: evbuffer_remove_Some
        split: if_splits option.splits prod.splits)
  let ?s2 = "s\<lparr>outgoing := og, resp_seed := take kSeedLength ?buf, responder_aes := aes\<rparr>"
  from evbuffer_remove_Some [OF rm]
  have og: "ev_input og = drop 16 ?buf" "ev_output og = ev_output (outgoing s)"
    by (simp_all add: kSeedLength_def)
  with len have l8: "8 \<le> length (ev_input (outgoing ?s2))"
    by simp
  from read_pad_hdr_Inr [OF rp l8] obtain aes' h hi hr and p :: "32 word" where
    f: "process c aes (take 8 (drop 16 ?buf)) = Some (aes', h)"
      "be_word (take 4 h) = kMagicValue" "p = be_word (drop 4 h)" "unat p \<le> kMaxPadding"
      "sha256 c (init_data @ (init_seed s @ take kSeedLength ?buf) @ init_data) = Some hi"
      "sha256 c (resp_data @ (init_seed s @ take kSeedLength ?buf) @ resp_data) = Some hr"
      "resp_pad_len s' = ucast p"
      "initiator_aes s' = keyed_from (be_bytes 32 hi)"
      "responder_aes s' = keyed_from (be_bytes 32 hr)"
      "received_seed_hdr s'"
      "ev_input (outgoing s') = drop 8 (drop 16 ?buf)"
      "ev_output (outgoing s') = ev_output (outgoing s)"
      "incoming s' = incoming s"
      "init_seed s' = init_seed s" "resp_seed s' = take kSeedLength ?buf"
      "state s' = state s" "replies s' = replies s"
    by (auto simp: og)
  from f(1) have f1: "process c aes (take 8 (drop kSeedLength ?buf)) = Some (aes', h)"
    by (simp add: kSeedLength_def)
  from responder_header_eq [OF mc st f1] f(2,3)
  have rh: "responder_header c ?buf = Some (kMagicValue, p)"
    by simp
  from len rh f show ?thesis
    by (auto simp: kSeedLength_def)
qed

lemma skip_padding_eq:
  assumes "length (ev_input (outgoing s)) < 2 ^ 64"
  shows "\<exists>s'. skip_padding s = (True, s')
       \<and> ev_input (outgoing s')
           = drop (min (unat (resp_pad_len s)) (length (ev_input (outgoing s)))) (ev_input (outgoing s))
       \<and> unat (resp_pad_len s')
           = unat (resp_pad_len s) - min (unat (resp_pad_len s)) (length (ev_input (outgoing s)))
       \<and> (state s' = (if resp_pad_len s' = 0 then ESTABLISHED else state s))
       \<and> (replies s' = (if resp_pad_len s' = 0 then replies s @ [SUCCEDED] else replies s))
       \<and> ev_output (outgoing s') = ev_output (outgoing s)
       \<and> incoming s' = incoming s
       \<and> initiator_aes s' = initiator_aes s \<and> responder_aes s' = responder_aes s
       \<and> init_seed s' = init_seed s \<and> resp_seed s' = resp_seed s
       \<and> received_seed_hdr s' = received_seed_hdr s"
proof -
  let ?r = "resp_pad_len s"
  let ?len = "of_nat (length (ev_input (outgoing s))) :: 64 word"
  have ul: "unat ?len = length (ev_input (outgoing s))"
    using assms by (simp add: unat_of_nat)
  have um: "unat (min ?r ?len) = min (unat ?r) (length (ev_input (outgoing s)))"
    using ul by (simp add: min_def word_le_nat_alt)
  have us: "unat (?r - min ?r ?len) = unat ?r - unat (min ?r ?len)"
    by (rule unat_sub) simp
  show ?thesis
  proof (cases "?r = 0")
    case True
    then show ?thesis
      by (simp add: skip_padding_def send_socks5_response_def)
  next
    case False
    then have pos: "0 < ?r"
      by (simp add: word_greater_zero_iff)
    show ?thesis
    proof (cases "?r - min ?r ?len = 0")
      case True
      with pos us um show ?thesis
        by (simp add: skip_padding_def Let_def send_socks5_response_def evbuffer_drain_def
            evbuffer_get_length_def)
    next
      case False
      then have "0 < ?r - min ?r ?len"
        by (simp add: word_greater_zero_iff)
      with pos False us um show ?thesis
        by (simp add: skip_padding_def Let_def evbuffer_drain_def evbuffer_get_length_def)
    qed
  qed
qed


lemma session_keys_cong:
  "init_seed t = init_seed s \<Longrightarrow> resp_seed t = resp_seed s \<Longrightarrow>
   session_keys c t = session_keys c s"
  by (simp add: session_keys_def cong: option.case_cong)

lemma skip_padding_frame:
  "\<exists>s'. skip_padding s = (True, s')
       \<and> (state s' = ESTABLISHED \<or> state s' = state s)
       \<and> ev_output (outgoing s') = ev_output (outgoing s)
       \<and> incoming s' = incoming s
       \<and> initiator_aes s' = initiator_aes s \<and> responder_aes s' = responder_aes s
       \<and> init_seed s' = init_seed s \<and> resp_seed s' = resp_seed s
       \<and> received_seed_hdr s' = received_seed_hdr s"
  by (simp add: skip_padding_def Let_def send_socks5_response_def evbuffer_drain_def)

lemma odc_step:
  assumes run: "on_outgoing_data_connecting c s = Inr (True, t)"
    and inv: "received_seed_hdr s \<longrightarrow> session_keys c s = Some (initiator_aes s, responder_aes s)"
  shows "(received_seed_hdr t \<longrightarrow> session_keys c t = Some (initiator_aes t, responder_aes t))
       \<and> init_seed t = init_seed s
       \<and> (state t = ESTABLISHED \<longrightarrow> received_seed_hdr t)
       \<and> (state t = ESTABLISHED \<or> state t = CONNECTING)"
proof -
  from run have st: "state s = CONNECTING"
    by (auto simp: on_outgoing_data_connecting_def split: if_splits)
  show ?thesis
  proof (cases "received_seed_hdr s")
    case True
    with run st have t: "skip_padding s = (True, t)"
      by (simp add: on_outgoing_data_connecting_def)
    with skip_padding_frame [of s] have
      f: "state t = ESTABLISHED \<or> state t = state s"
        "initiator_aes t = initiator_aes s" "responder_aes t = responder_aes s"
        "init_seed t = init_seed s" "resp_seed t = resp_seed s"
        "received_seed_hdr t = received_seed_hdr s"
      by auto
    from session_keys_cong [OF f(4) f(5), of c] True inv f st show ?thesis
      by auto
  next
    case False
    show ?thesis
    proof (cases "read_seed_hdr c s")
      case (Inl r)
      with run st False have "r = (True, t)"
        by (simp add: on_outgoing_data_connecting_def)
      with read_seed_hdr_Inl [OF Inl] have "t = s"
        by (auto simp: failed_def)
      with st False show ?thesis by simp
    next
      case (Inr s1)
      with run st False have t: "skip_padding s1 = (True, t)"
        by (simp add: on_outgoing_data_connecting_def)
      from read_seed_hdr_Inr [OF Inr] have
        k: "session_keys c s1 = Some (initiator_aes s1, responder_aes s1)"
        and r: "received_seed_hdr s1" "init_seed s1 = init_seed s" "state s1 = state s"
        by (auto simp: session_keys_def)
      from t skip_padding_frame [of s1] have
        f: "state t = ESTABLISHED \<or> state t = state s1"
          "initiator_aes t = initiator_aes s1" "responder_aes t = responder_aes s1"
          "init_seed t = init_seed s1" "resp_seed t = resp_seed s1"
          "received_seed_hdr t = received_seed_hdr s1"
        by auto
      from session_keys_cong [OF f(4) f(5), of c] k r f st show ?thesis
        by auto
    qed
  qed
qed

lemma connecting_keyed:
  assumes "connecting c s xs = Some s'"
    and "state s' = ESTABLISHED" and "state s = CONNECTING"
    and "received_seed_hdr s \<longrightarrow> session_keys c s = Some (initiator_aes s, responder_aes s)"
  shows "session_keys c s' = Some (initiator_aes s', responder_aes s')
       \<and> init_seed s' = init_seed s"
  using assms
proof (induction xs arbitrary: s)
  case Nil
  then show ?case by simp
next
  case (Cons x xs)
  let ?f = "s\<lparr>outgoing := feed (outgoing s) x\<rparr>"
  from Cons.prems(1) obtain t where
    t: "on_outgoing_data_connecting c ?f = Inr (True, t)"
    and r: "if state t = ESTABLISHED then s' = t else connecting c t xs = Some s'"
    by (auto split: sum.splits prod.splits bool.splits if_splits)
  have "session_keys c ?f = session_keys c s"
    by (rule session_keys_cong) simp_all
  with Cons.prems(4)
  have inv: "received_seed_hdr ?f \<longrightarrow> session_keys c ?f = Some (initiator_aes ?f, responder_aes ?f)"
    by simp
  from odc_step [OF t inv] have
    o: "received_seed_hdr t \<longrightarrow> session_keys c t = Some (initiator_aes t, responder_aes t)"
      "init_seed t = init_seed s" "state t = ESTABLISHED \<longrightarrow> received_seed_hdr t"
      "state t = ESTABLISHED \<or> state t = CONNECTING"
    by simp_all
  show ?case
  proof (cases "state t = ESTABLISHED")
    case True
    with r o show ?thesis by simp
  next
    case False
    with r o have "connecting c t xs = Some s'" "state t = CONNECTING"
      by simp_all
    from Cons.IH [OF this(1) Cons.prems(2) this(2) o(1)] o(2) show ?thesis
      by simp
  qed
qed

text \<open>
  C2 (amended).  When a session that has not yet read the responder's seed and header
  completes the handshake, both ciphers are in the state \<open>kdf_obfs2\<close> set when the header
  was accepted: the initiator cipher is keyed from \<open>INIT_SECRET\<close> and the responder cipher
  from \<open>RESP_SECRET\<close>, each with its counter at the secret's last 16 bytes and no byte
  of the first block used.  The state the initiator pad cipher had reached and the number
  of responder padding bytes do not enter.
\<close>

theorem C2_data_ciphers_are_rekeyed:
  assumes "connecting c s chunks = Some s'"
    and "state s = CONNECTING" and "\<not> received_seed_hdr s" and "state s' = ESTABLISHED"
  shows "\<exists>hi hr.
           sha256 c (init_data @ (init_seed s @ resp_seed s') @ init_data) = Some hi
         \<and> sha256 c (resp_data @ (init_seed s @ resp_seed s') @ resp_data) = Some hr
         \<and> initiator_aes s' =
             \<lparr>ctr_key = take 16 (be_bytes 32 hi),
              ctr_counter = be_word (drop 16 (be_bytes 32 hi)), ctr_num = 0\<rparr>
         \<and> responder_aes s' =
             \<lparr>ctr_key = take 16 (be_bytes 32 hr),
              ctr_counter = be_word (drop 16 (be_bytes 32 hr)), ctr_num = 0\<rparr>"
proof -
  from assms(3)
  have "received_seed_hdr s \<longrightarrow> session_keys c s = Some (initiator_aes s, responder_aes s)"
    by simp
  from connecting_keyed [OF assms(1) assms(4) assms(2) this]
  show ?thesis
    by (auto simp: session_keys_def keyed_from_def kAes128KeyLength_def split: option.splits)
qed

lemma out_errorI:
  "state u = state s \<Longrightarrow> replies u = replies s \<Longrightarrow>
   \<exists>v. send_socks4_response False u = send_socks4_response False v
       \<and> state v = state s \<and> replies v = replies s"
  by blast

lemma kdf_obfs2_frame:
  "kdf_obfs2 c s = (b, s') \<Longrightarrow> state s' = state s \<and> replies s' = replies s"
  by (auto simp: kdf_obfs2_def Let_def split: option.splits)

lemma Obfs2Client_check_pad_hdr_Inl:
  "Obfs2Client_check_pad_hdr c h s = Inl r \<Longrightarrow>
   \<exists>u. r = send_socks4_response False u \<and> state u = state s \<and> replies u = replies s"
  by (auto simp: Obfs2Client_check_pad_hdr_def Let_def intro!: out_errorI dest!: kdf_obfs2_frame
      split: if_splits prod.splits bool.splits)

lemma Obfs2Client_check_pad_hdr_Inr:
  "Obfs2Client_check_pad_hdr c h s = Inr s' \<Longrightarrow>
   be_word (take 4 h) = kMagicValue \<and> unat (be_word (drop 4 h) :: 32 word) \<le> kMaxPadding"
  by (auto simp: Obfs2Client_check_pad_hdr_def Let_def unat_ucast_32_64
      split: if_splits prod.splits bool.splits)

lemma evbuffer_pullup_Some:
  "evbuffer_pullup e n = Some (d, e') \<Longrightarrow>
   d = take n (ev_input e) \<and> ev_input e' = ev_input e \<and> ev_output e' = ev_output e"
  by (auto simp: evbuffer_pullup_def dest!: ev_call_fields)

lemma Obfs2Client_read_seed_hdr_Inl:
  assumes "Obfs2Client_read_seed_hdr c s = Inl r"
  shows "(r = s \<and> length (ev_input (outgoing s)) < 24)
       \<or> (\<exists>u. r = send_socks4_response False u \<and> state u = state s \<and> replies u = replies s)"
  using assms
  by (auto simp: Obfs2Client_read_seed_hdr_def Let_def evbuffer_get_length_def kSeedLength_def
      intro!: out_errorI
      dest!: Obfs2Client_check_pad_hdr_Inl
      split: if_splits option.splits prod.splits)

lemma Obfs2Client_read_seed_hdr_Inr:
  assumes "Obfs2Client_read_seed_hdr c s = Inr s'"
  shows "\<exists>p :: 32 word. responder_header c (ev_input (outgoing s)) = Some (kMagicValue, p)
           \<and> unat p \<le> kMaxPadding"
proof -
  let ?buf = "ev_input (outgoing s)"
  from assms have len: "24 \<le> length ?buf"
    by (auto simp: Obfs2Client_read_seed_hdr_def Let_def evbuffer_get_length_def kSeedLength_def
        split: if_splits)
  from assms len obtain og k aes aes' h t where
    pu: "evbuffer_pullup (outgoing s) 24 = Some (take 24 ?buf, og)"
    and mc: "mac c (Some resp_mac_key) (Some (take kSeedLength ?buf)) (replicate kDigestLength 0)
              = Some k"
    and st: "set_state c (take kAes128KeyLength k) (drop kAes128KeyLength k) = Some aes"
    and pr: "process c aes (take 8 (drop kSeedLength ?buf)) = Some (aes', h)"
    and ck: "Obfs2Client_check_pad_hdr c h t = Inr s'"
    by (auto simp: Obfs2Client_read_seed_hdr_def Let_def evbuffer_get_length_def kSeedLength_def
        drop_take
        dest: evbuffer_pullup_Some
        split: if_splits option.splits prod.splits)
  from responder_header_eq [OF mc st pr] Obfs2Client_check_pad_hdr_Inr [OF ck]
  show ?thesis
    by simp
qed

lemma Obfs2Client_bad_header:
  assumes "state t = CONNECTING" and "\<not> received_seed_hdr t"
    and "24 \<le> length (ev_input (outgoing t))"
    and "responder_header c (ev_input (outgoing t)) = Some (m, p)"
    and "m \<noteq> kMagicValue \<or> unat p > kMaxPadding"
  shows "\<exists>u. Obfs2Client_on_outgoing_data_connecting c t = Inr (send_socks4_response False u)
           \<and> state u = CONNECTING \<and> replies u = replies t"
proof (cases "Obfs2Client_read_seed_hdr c t")
  case (Inl r)
  from Obfs2Client_read_seed_hdr_Inl [OF Inl] assms(3)
  have "\<exists>u. r = send_socks4_response False u \<and> state u = state t \<and> replies u = replies t"
    by auto
  with Inl assms(1,2) show ?thesis
    by (auto simp: Obfs2Client_on_outgoing_data_connecting_def)
next
  case (Inr s1)
  from Obfs2Client_read_seed_hdr_Inr [OF Inr] assms(4,5) show ?thesis
    by auto
qed


text \<open>
  C9 (amended).  In state CONNECTING with at least 24 bytes buffered and the seed and
  header not yet read, let the responder header decrypt to a first word other than
  \<open>kMagicValue\<close> or to a padding length above \<open>kMaxPadding\<close>.  Then
  \<open>obfs2::Client::on_outgoing_data_connecting\<close> sends GENERAL_FAILURE through
  \<open>send_socks5_response\<close>, returns false, and the session is not ESTABLISHED; and
  \<open>Obfs2Client::on_outgoing_data_connecting\<close> calls \<open>send_socks4_response(false)\<close> and
  returns, the state being CONNECTING and no reply sent by the time of that call, so that
  the one reply of the callback is the SOCKS4 rejection; with \<open>send_socks4_response\<close> as
  taken above, the session is not ESTABLISHED.
\<close>

theorem C9_bad_header:
  "(state s = CONNECTING \<and> \<not> received_seed_hdr s
      \<and> 24 \<le> length (ev_input (outgoing s))
      \<and> responder_header c (ev_input (outgoing s)) = Some (m, p)
      \<and> (m \<noteq> kMagicValue \<or> unat p > kMaxPadding) \<longrightarrow>
      (\<exists>s'. on_outgoing_data_connecting c s = Inr (False, s')
           \<and> replies s' = replies s @ [GENERAL_FAILURE]
           \<and> state s' \<noteq> ESTABLISHED))
   \<and> (state t = CONNECTING \<and> \<not> received_seed_hdr t
      \<and> 24 \<le> length (ev_input (outgoing t))
      \<and> responder_header c (ev_input (outgoing t)) = Some (m, p)
      \<and> (m \<noteq> kMagicValue \<or> unat p > kMaxPadding) \<longrightarrow>
      (\<exists>u. Obfs2Client_on_outgoing_data_connecting c t = Inr (send_socks4_response False u)
           \<and> state u = CONNECTING \<and> replies u = replies t
           \<and> replies (send_socks4_response False u) = replies t @ [SOCKS4_REJECTED]
           \<and> state (send_socks4_response False u) \<noteq> ESTABLISHED))"
proof (intro conjI impI)
  assume a: "state s = CONNECTING \<and> \<not> received_seed_hdr s
      \<and> 24 \<le> length (ev_input (outgoing s))
      \<and> responder_header c (ev_input (outgoing s)) = Some (m, p)
      \<and> (m \<noteq> kMagicValue \<or> unat p > kMaxPadding)"
  show "\<exists>s'. on_outgoing_data_connecting c s = Inr (False, s')
           \<and> replies s' = replies s @ [GENERAL_FAILURE]
           \<and> state s' \<noteq> ESTABLISHED"
  proof (cases "read_seed_hdr c s")
    case (Inl r)
    from read_seed_hdr_Inl [OF Inl] a have "failed s r"
      by auto
    with Inl a show ?thesis
      by (cases r) (simp add: on_outgoing_data_connecting_def failed_def)
  next
    case (Inr s1)
    from read_seed_hdr_Inr [OF Inr] a show ?thesis
      by auto
  qed
next
  assume a: "state t = CONNECTING \<and> \<not> received_seed_hdr t
      \<and> 24 \<le> length (ev_input (outgoing t))
      \<and> responder_header c (ev_input (outgoing t)) = Some (m, p)
      \<and> (m \<noteq> kMagicValue \<or> unat p > kMaxPadding)"
  then have a1: "state t = CONNECTING" and a2: "\<not> received_seed_hdr t"
    and a3: "24 \<le> length (ev_input (outgoing t))"
    and a4: "responder_header c (ev_input (outgoing t)) = Some (m, p)"
    and a5: "m \<noteq> kMagicValue \<or> unat p > kMaxPadding"
    by blast+
  from Obfs2Client_bad_header [OF a1 a2 a3 a4 a5]
  show "\<exists>u. Obfs2Client_on_outgoing_data_connecting c t = Inr (send_socks4_response False u)
           \<and> state u = CONNECTING \<and> replies u = replies t
           \<and> replies (send_socks4_response False u) = replies t @ [SOCKS4_REJECTED]
           \<and> state (send_socks4_response False u) \<noteq> ESTABLISHED"
    by (auto simp: send_socks4_response_def)
qed

text \<open>
  C8.  In state CONNECTING: with the seed and header unread and fewer than 24 bytes
  buffered, the callback returns true and changes nothing; with the header read, a call
  drains \<open>min(resp_pad_len_, buffered)\<close> bytes, takes as many off \<open>resp_pad_len_\<close>
  (which therefore does not wrap), and leaves the rest of the buffer; the call that reads
  the header consumes the 24 bytes and then drains padding in the same way.
\<close>

theorem C8_consumes_no_more:
  assumes "state s = CONNECTING"
  shows "(\<not> received_seed_hdr s \<and> length (ev_input (outgoing s)) < 24 \<longrightarrow>
            on_outgoing_data_connecting c s = Inr (True, s))
       \<and> (received_seed_hdr s \<and> length (ev_input (outgoing s)) < 2 ^ 64 \<longrightarrow>
            (\<exists>s'. on_outgoing_data_connecting c s = Inr (True, s')
               \<and> ev_input (outgoing s')
                   = drop (min (unat (resp_pad_len s)) (length (ev_input (outgoing s))))
                       (ev_input (outgoing s))
               \<and> unat (resp_pad_len s')
                   = unat (resp_pad_len s)
                     - min (unat (resp_pad_len s)) (length (ev_input (outgoing s)))))
       \<and> (\<not> received_seed_hdr s \<and> 24 \<le> length (ev_input (outgoing s))
          \<and> length (ev_input (outgoing s)) < 2 ^ 64 \<longrightarrow>
            (\<forall>s'. on_outgoing_data_connecting c s = Inr (True, s') \<longrightarrow>
               (\<exists>p :: 32 word.
                   responder_header c (ev_input (outgoing s)) = Some (kMagicValue, p)
                 \<and> unat p \<le> kMaxPadding
                 \<and> ev_input (outgoing s')
                     = drop (24 + min (unat p) (length (ev_input (outgoing s)) - 24))
                         (ev_input (outgoing s))
                 \<and> unat (resp_pad_len s')
                     = unat p - min (unat p) (length (ev_input (outgoing s)) - 24))))"
proof (intro conjI impI allI)
  assume "\<not> received_seed_hdr s \<and> length (ev_input (outgoing s)) < 24"
  with assms show "on_outgoing_data_connecting c s = Inr (True, s)"
    by (simp add: on_outgoing_data_connecting_def read_seed_hdr_def evbuffer_get_length_def
        kSeedLength_def)
next
  assume a: "received_seed_hdr s \<and> length (ev_input (outgoing s)) < 2 ^ 64"
  then have "length (ev_input (outgoing s)) < 2 ^ 64" by simp
  from skip_padding_eq [OF this] a assms
  show "\<exists>s'. on_outgoing_data_connecting c s = Inr (True, s')
               \<and> ev_input (outgoing s')
                   = drop (min (unat (resp_pad_len s)) (length (ev_input (outgoing s))))
                       (ev_input (outgoing s))
               \<and> unat (resp_pad_len s')
                   = unat (resp_pad_len s)
                     - min (unat (resp_pad_len s)) (length (ev_input (outgoing s)))"
    by (auto simp: on_outgoing_data_connecting_def)
next
  fix s'
  assume a: "\<not> received_seed_hdr s \<and> 24 \<le> length (ev_input (outgoing s))
          \<and> length (ev_input (outgoing s)) < 2 ^ 64"
    and run: "on_outgoing_data_connecting c s = Inr (True, s')"
  show "\<exists>p :: 32 word.
          responder_header c (ev_input (outgoing s)) = Some (kMagicValue, p)
        \<and> unat p \<le> kMaxPadding
        \<and> ev_input (outgoing s')
            = drop (24 + min (unat p) (length (ev_input (outgoing s)) - 24))
                (ev_input (outgoing s))
        \<and> unat (resp_pad_len s')
            = unat p - min (unat p) (length (ev_input (outgoing s)) - 24)"
  proof (cases "read_seed_hdr c s")
    case (Inl r)
    with run assms a have "r = (True, s')"
      by (simp add: on_outgoing_data_connecting_def)
    with read_seed_hdr_Inl [OF Inl] a show ?thesis
      by (auto simp: failed_def)
  next
    case (Inr s1)
    with run assms a have t: "skip_padding s1 = (True, s')"
      by (simp add: on_outgoing_data_connecting_def)
    from read_seed_hdr_Inr [OF Inr] obtain p :: "32 word" where
      h: "responder_header c (ev_input (outgoing s)) = Some (kMagicValue, p)"
        "unat p \<le> kMaxPadding" "resp_pad_len s1 = ucast p"
        "ev_input (outgoing s1) = drop 24 (ev_input (outgoing s))"
      by auto
    from a have "length (ev_input (outgoing s)) - 24 < 2 ^ 64"
      by (intro less_imp_diff_less) simp
    with h(4) have "length (ev_input (outgoing s1)) < 2 ^ 64"
      by simp
    from skip_padding_eq [OF this] t h show ?thesis
      by (auto simp: unat_ucast_32_64 add.commute)
  qed
qed

subsection \<open>C3: what the client sends on connect\<close>

lemma bufferevent_write_Some:
  "bufferevent_write e d = Some e' \<Longrightarrow>
   ev_output e' = ev_output e @ d \<and> ev_input e' = ev_input e"
  by (auto simp: bufferevent_write_def dest!: ev_call_fields)

lemma get_bytes_Some:
  "get_bytes r n = Some (d, r') \<Longrightarrow>
   d = take n (tape r) \<and> n \<le> length (tape r) \<and> tape r' = drop n (tape r)
   \<and> pad_dist r' = pad_dist r"
  by (auto simp: get_bytes_def pad_dist_def split: if_splits)

lemma process_Some:
  "process c st xs = Some (st', ys) \<Longrightarrow>
   st' = fst (ctr_xor c st xs) \<and> ys = snd (ctr_xor c st xs)"
  by (auto simp: process_def split: if_splits)

lemma send_padding_ok:
  assumes "send_padding c padlen s = Inr (True, s')"
  shows "unat padlen \<le> kMaxPadding \<and> unat padlen \<le> length (tape (rand s))
       \<and> ev_output (outgoing s') =
           ev_output (outgoing s)
           @ snd (ctr_xor c (initiator_aes s) (take (unat padlen) (tape (rand s))))
       \<and> initiator_aes s' = fst (ctr_xor c (initiator_aes s) (take (unat padlen) (tape (rand s))))
       \<and> init_seed s' = init_seed s"
  using assms
  by (auto simp: send_padding_def Let_def send_socks5_response_def
      dest!: get_bytes_Some process_Some bufferevent_write_Some
      split: if_splits option.splits prod.splits)

lemma on_outgoing_connected_ok:
  assumes "on_outgoing_connected c s = Inr (True, s')"
  shows "\<exists>k. 16 \<le> length (tape (rand s))
       \<and> mac c (Some init_mac_key) (Some (take 16 (tape (rand s)))) (replicate 32 0) = Some k
       \<and> unat (pad_dist (rand s)) \<le> kMaxPadding
       \<and> unat (pad_dist (rand s)) \<le> length (drop 16 (tape (rand s)))
       \<and> init_seed s' = take 16 (tape (rand s))
       \<and> ev_output (outgoing s') =
           ev_output (outgoing s) @ take 16 (tape (rand s))
           @ snd (ctr_xor c (keyed_from k)
                   ((be_bytes 4 kMagicValue @ be_bytes 4 (pad_dist (rand s)))
                    @ take (unat (pad_dist (rand s))) (drop 16 (tape (rand s)))))
       \<and> initiator_aes s' =
           fst (ctr_xor c (keyed_from k)
                   ((be_bytes 4 kMagicValue @ be_bytes 4 (pad_dist (rand s)))
                    @ take (unat (pad_dist (rand s))) (drop 16 (tape (rand s)))))"
proof -
  let ?seed = "take 16 (tape (rand s))"
  from assms obtain seed r where gb: "get_bytes (rand s) kSeedLength = Some (seed, r)"
    by (auto simp: on_outgoing_connected_def send_socks5_response_def split: option.splits)
  from get_bytes_Some [OF gb] have r: "seed = ?seed" "16 \<le> length (tape (rand s))"
    "tape r = drop 16 (tape (rand s))" "pad_dist r = pad_dist (rand s)"
    by (simp_all add: kSeedLength_def)
  let ?s1 = "s\<lparr>init_seed := seed, rand := r\<rparr>"
  from assms gb obtain k where
    mc: "mac c (Some init_mac_key) (Some seed) (replicate kDigestLength 0) = Some k"
    by (auto simp: on_outgoing_connected_def Let_def send_socks5_response_def
        split: option.splits)
  from assms gb mc obtain aes0 where
    ss: "set_state c (take kAes128KeyLength k) (drop kAes128KeyLength k) = Some aes0"
    by (auto simp: on_outgoing_connected_def Let_def send_socks5_response_def
        split: option.splits)
  from set_state_Some [OF ss] have aes0: "aes0 = keyed_from k" .
  let ?padlen = "pad_dist r"
  let ?hdr = "be_bytes 4 kMagicValue @ be_bytes 4 ?padlen"
  let ?s2 = "?s1\<lparr>initiator_aes := aes0\<rparr>"
  from assms gb mc ss obtain aes1 hdr' where
    pr: "process c aes0 ?hdr = Some (aes1, hdr')"
    by (auto simp: on_outgoing_connected_def Let_def send_socks5_response_def
        split: option.splits)
  from process_Some [OF pr] have p: "aes1 = fst (ctr_xor c aes0 ?hdr)"
    "hdr' = snd (ctr_xor c aes0 ?hdr)"
    by simp_all
  from assms gb mc ss pr obtain og1 where
    w1: "bufferevent_write (outgoing s) seed = Some og1"
    by (auto simp: on_outgoing_connected_def Let_def send_socks5_response_def
        split: option.splits)
  from assms gb mc ss pr w1 obtain og2 where
    w2: "bufferevent_write og1 hdr' = Some og2"
    by (auto simp: on_outgoing_connected_def Let_def send_socks5_response_def
        split: option.splits)
  let ?s5 = "s\<lparr>init_seed := seed, rand := r, initiator_aes := aes1, outgoing := og2\<rparr>"
  from assms gb mc ss pr w1 w2 have
    rest: "(if ?padlen > 0 then send_padding c ?padlen ?s5 else Inr (True, ?s5)) = Inr (True, s')"
    by (simp add: on_outgoing_connected_def Let_def cong: if_cong)
  from bufferevent_write_Some [OF w1] bufferevent_write_Some [OF w2]
  have og: "ev_output og2 = ev_output (outgoing s) @ seed @ hdr'"
    by simp
  from mc r(1) have mc': "mac c (Some init_mac_key) (Some ?seed) (replicate 32 0) = Some k"
    by (simp add: kDigestLength_def)
  show ?thesis
  proof (cases "?padlen > 0")
    case True
    with rest have sp: "send_padding c ?padlen ?s5 = Inr (True, s')"
      by simp
    from send_padding_ok [OF sp] r og mc' p aes0 show ?thesis
      by (simp add: ctr_xor_append)
  next
    case False
    then have z: "unat ?padlen = 0"
      by (simp add: word_greater_zero_iff)
    from False rest have "s' = ?s5"
      by simp
    with z r og mc' p aes0 show ?thesis
      by (simp add: kMaxPadding_def)
  qed
qed


lemma send_socks4_response_replies:
  "replies (send_socks4_response ok s) \<noteq> replies s"
  by (simp add: send_socks4_response_def)

lemma Obfs2Client_on_outgoing_connected_ok:
  assumes run: "Obfs2Client_on_outgoing_connected c s = Some (Inr s')"
    and ok: "replies s' = replies s"
  shows "\<exists>k padlen rng.
         16 \<le> length (tape (rand s))
       \<and> mac c (Some init_mac_key) (Some (take 16 (tape (rand s)))) (replicate 32 0) = Some k
       \<and> gen_padlen (evutil_rng s) = Some (Inr padlen, rng)
       \<and> ev_output (outgoing s') =
           ev_output (outgoing s) @ take 16 (tape (rand s))
           @ snd (ctr_xor c (keyed_from k) (be_bytes 4 kMagicValue @ be_bytes 4 padlen))
           @ stake (unat padlen) rng
       \<and> initiator_aes s' =
           fst (ctr_xor c (keyed_from k) (be_bytes 4 kMagicValue @ be_bytes 4 padlen))"
proof -
  let ?seed = "take 16 (tape (rand s))"
  note defs = Obfs2Client_on_outgoing_connected_def Let_def
  from run ok obtain seed r where gb: "get_bytes (rand s) kSeedLength = Some (seed, r)"
    by (auto simp: defs send_socks4_response_def split: option.splits)
  from get_bytes_Some [OF gb] have r: "seed = ?seed" "16 \<le> length (tape (rand s))"
    by (simp_all add: kSeedLength_def)
  from run ok gb obtain k where
    mc: "mac c (Some init_mac_key) (Some seed) (replicate kDigestLength 0) = Some k"
    by (auto simp: defs send_socks4_response_def split: option.splits)
  from run ok gb mc obtain aes0 where
    ss: "set_state c (take kAes128KeyLength k) (drop kAes128KeyLength k) = Some aes0"
    by (auto simp: defs send_socks4_response_def split: option.splits)
  from set_state_Some [OF ss] have aes0: "aes0 = keyed_from k" .
  from run ok gb mc ss obtain padlen rng where
    gp: "gen_padlen (evutil_rng s) = Some (Inr padlen, rng)"
    by (auto simp: defs send_socks4_response_def split: option.splits sum.splits prod.splits)
  let ?hdr = "be_bytes 4 kMagicValue @ be_bytes 4 padlen"
  from run ok gb mc ss gp obtain aes1 hdr' where
    pr: "process c aes0 ?hdr = Some (aes1, hdr')"
    by (auto simp: defs send_socks4_response_def split: option.splits)
  from process_Some [OF pr] have p: "aes1 = fst (ctr_xor c aes0 ?hdr)"
    "hdr' = snd (ctr_xor c aes0 ?hdr)"
    by simp_all
  from run ok gb mc ss gp pr obtain og1 where
    w1: "bufferevent_write (outgoing s) seed = Some og1"
    by (auto simp: defs send_socks4_response_def split: option.splits)
  from run ok gb mc ss gp pr w1 obtain og2 where
    w2: "bufferevent_write og1 hdr' = Some og2"
    by (auto simp: defs send_socks4_response_def split: option.splits)
  from bufferevent_write_Some [OF w1] bufferevent_write_Some [OF w2]
  have og: "ev_output og2 = ev_output (outgoing s) @ seed @ hdr'"
    by simp
  from mc r(1) have mc': "mac c (Some init_mac_key) (Some ?seed) (replicate 32 0) = Some k"
    by (simp add: kDigestLength_def)
  show ?thesis
  proof (cases "padlen > 0")
    case True
    with run ok gb mc ss gp pr w1 w2 obtain og3 where
      w3: "bufferevent_write og2 (stake (unat padlen) rng) = Some og3"
      and s': "s' = s\<lparr>init_seed := seed, rand := r, initiator_aes := aes1,
                      evutil_rng := sdrop (unat padlen) rng, outgoing := og3\<rparr>"
      by (auto simp: defs send_socks4_response_def evutil_secure_rng_get_bytes_def
          split: option.splits)
    from bufferevent_write_Some [OF w3] og s' r mc' gp p aes0 show ?thesis
      by simp
  next
    case False
    then have z: "unat padlen = 0"
      by (simp add: word_greater_zero_iff)
    from False run gb mc ss gp pr w1 w2
    have "ev_output (outgoing s') = ev_output og2 \<and> initiator_aes s' = aes1"
      by (auto simp: defs)
    with z r og mc' gp p aes0 show ?thesis
      by simp
  qed
qed

lemma sample_gen_padlen:
  "gen_padlen (1 ## 0 ## 0 ## 0 ## sconst 0x22) = Some (Inr 1, sconst 0x22)"
  by (simp add: gen_padlen_def gen_padlen_loop.simps evutil_secure_rng_get_bytes_def
      le_word32_def be_word_def kMaxPadding_def stake4 sdrop4)

lemma sample_init_pad_key:
  "mac sample_crypto (Some init_mac_key) (Some (replicate 16 0x11)) (replicate kDigestLength 0)
     = Some (replicate 30 0 @ [0x49, 0x4A])"
  by code_simp

lemma sample_init_pad_cipher:
  "set_state sample_crypto (take kAes128KeyLength (replicate 30 0 @ [0x49, 0x4A]))
     (drop kAes128KeyLength (replicate 30 0 @ [0x49, 0x4A]))
   = Some \<lparr>ctr_key = replicate 16 0, ctr_counter = 18762, ctr_num = 0\<rparr>"
  by code_simp

lemma sample_header:
  "process sample_crypto \<lparr>ctr_key = replicate 16 0, ctr_counter = 18762, ctr_num = 0\<rparr>
     (be_bytes 4 kMagicValue @ be_bytes 4 1)
   = Some (\<lparr>ctr_key = replicate 16 0, ctr_counter = 18762, ctr_num = 8\<rparr>,
           [0xB8, 0x66, 0x59, 0xED, 0x93, 0x93, 0x93, 0x92])"
  by code_simp

lemma sample_legacy_run:
  "Obfs2Client_on_outgoing_connected sample_crypto sample_obfs2client =
     Some (Inr sample_obfs2client_connected)"
  by (simp add: Obfs2Client_on_outgoing_connected_def sample_obfs2client_def Let_def
      sample_obfs2client_connected_def
      get_bytes_def kSeedLength_def sample_init_pad_key sample_init_pad_cipher
      sample_gen_padlen sample_header bufferevent_write_def ev_call_def idle_def
      evutil_secure_rng_get_bytes_def del: take_append drop_append)

lemma sample_connect:
  "on_outgoing_connected sample_crypto sample_session = Inr (True, sample_connected)"
  by code_simp

lemma sample_claimed_bytes:
  "snd (ctr_xor sample_crypto \<lparr>ctr_key = replicate 16 0, ctr_counter = 18762, ctr_num = 0\<rparr>
          ((be_bytes 4 kMagicValue @ be_bytes 4 1) @ [0x22]))
     = [0xB8, 0x66, 0x59, 0xED, 0x93, 0x93, 0x93, 0x92, 0xB1]"
  by code_simp

text \<open>
  C3 (as stated, refuted).  The claim has every successful \<open>on_outgoing_connected\<close> write
  the padding encrypted under the pad cipher.  The older class \<open>Obfs2Client\<close> draws one
  padding byte \<open>0x22\<close> in the sample run and writes it as drawn; under the pad cipher,
  after the header, it would have been \<open>0xB1\<close>.
\<close>

theorem C3_older_class_sends_padding_in_clear:
  "Obfs2Client_on_outgoing_connected sample_crypto sample_obfs2client =
     Some (Inr sample_obfs2client_connected)
   \<and> replies sample_obfs2client_connected = replies sample_obfs2client
   \<and> ev_output (outgoing sample_obfs2client_connected)
       = replicate 16 0x11 @ [0xB8, 0x66, 0x59, 0xED, 0x93, 0x93, 0x93, 0x92] @ [0x22]
   \<and> snd (ctr_xor sample_crypto
            \<lparr>ctr_key = replicate 16 0, ctr_counter = 18762, ctr_num = 0\<rparr>
            ((be_bytes 4 kMagicValue @ be_bytes 4 1) @ [0x22]))
       = [0xB8, 0x66, 0x59, 0xED, 0x93, 0x93, 0x93, 0x92] @ [0xB1]"
  using sample_legacy_run sample_claimed_bytes
  by (simp add: sample_obfs2client_connected_def)

text \<open>
  C3 (amended).  For every successful run of \<open>obfs2::Client::on_outgoing_connected\<close> the
  bytes written to the outgoing endpoint are, in order, the 16-byte INIT_SEED in
  plaintext, the 8-byte header (big-endian MAGIC, big-endian PADLEN) encrypted under the
  initiator pad cipher, and PADLEN bytes of random padding encrypted under the same
  cipher, continuing after the header.  For every successful run of the older
  \<open>Obfs2Client::on_outgoing_connected\<close> the seed and the encrypted header are the same,
  and the PADLEN padding bytes follow as drawn, not encrypted.  The run of
  \<open>obfs2::Client\<close> leaves the pad cipher where header and padding have taken it, the run
  of \<open>Obfs2Client\<close> where the header alone has left it.
\<close>

theorem C3_handshake_bytes:
  "(on_outgoing_connected c s = Inr (True, s') \<longrightarrow>
      (\<exists>k. mac c (Some init_mac_key) (Some (take 16 (tape (rand s)))) (replicate 32 0) = Some k
         \<and> length (take 16 (tape (rand s))) = 16
         \<and> length (be_bytes 4 kMagicValue @ be_bytes 4 (pad_dist (rand s))) = 8
         \<and> length (take (unat (pad_dist (rand s))) (drop 16 (tape (rand s))))
             = unat (pad_dist (rand s))
         \<and> ev_output (outgoing s') =
             ev_output (outgoing s) @ take 16 (tape (rand s))
             @ snd (ctr_xor c (keyed_from k)
                     ((be_bytes 4 kMagicValue @ be_bytes 4 (pad_dist (rand s)))
                      @ take (unat (pad_dist (rand s))) (drop 16 (tape (rand s)))))
         \<and> initiator_aes s' =
             fst (ctr_xor c (keyed_from k)
                   ((be_bytes 4 kMagicValue @ be_bytes 4 (pad_dist (rand s)))
                    @ take (unat (pad_dist (rand s))) (drop 16 (tape (rand s)))))))
   \<and> (Obfs2Client_on_outgoing_connected c t = Some (Inr t') \<and> replies t' = replies t \<longrightarrow>
      (\<exists>k padlen rng.
           mac c (Some init_mac_key) (Some (take 16 (tape (rand t)))) (replicate 32 0) = Some k
         \<and> gen_padlen (evutil_rng t) = Some (Inr padlen, rng)
         \<and> length (take 16 (tape (rand t))) = 16
         \<and> length (be_bytes 4 kMagicValue @ be_bytes 4 padlen) = 8
         \<and> length (stake (unat padlen) rng) = unat padlen
         \<and> ev_output (outgoing t') =
             ev_output (outgoing t) @ take 16 (tape (rand t))
             @ snd (ctr_xor c (keyed_from k) (be_bytes 4 kMagicValue @ be_bytes 4 padlen))
             @ stake (unat padlen) rng
         \<and> initiator_aes t' =
             fst (ctr_xor c (keyed_from k) (be_bytes 4 kMagicValue @ be_bytes 4 padlen))))"
proof (intro conjI impI)
  assume "on_outgoing_connected c s = Inr (True, s')"
  from on_outgoing_connected_ok [OF this]
  show "\<exists>k. mac c (Some init_mac_key) (Some (take 16 (tape (rand s)))) (replicate 32 0) = Some k
         \<and> length (take 16 (tape (rand s))) = 16
         \<and> length (be_bytes 4 kMagicValue @ be_bytes 4 (pad_dist (rand s))) = 8
         \<and> length (take (unat (pad_dist (rand s))) (drop 16 (tape (rand s))))
             = unat (pad_dist (rand s))
         \<and> ev_output (outgoing s') =
             ev_output (outgoing s) @ take 16 (tape (rand s))
             @ snd (ctr_xor c (keyed_from k)
                     ((be_bytes 4 kMagicValue @ be_bytes 4 (pad_dist (rand s)))
                      @ take (unat (pad_dist (rand s))) (drop 16 (tape (rand s)))))
         \<and> initiator_aes s' =
             fst (ctr_xor c (keyed_from k)
                   ((be_bytes 4 kMagicValue @ be_bytes 4 (pad_dist (rand s)))
                    @ take (unat (pad_dist (rand s))) (drop 16 (tape (rand s)))))"
    by (auto simp: length_be_bytes min_def)
next
  assume "Obfs2Client_on_outgoing_connected c t = Some (Inr t') \<and> replies t' = replies t"
  then have a: "Obfs2Client_on_outgoing_connected c t = Some (Inr t')"
    and b: "replies t' = replies t"
    by simp_all
  from Obfs2Client_on_outgoing_connected_ok [OF a b]
  show "\<exists>k padlen rng.
           mac c (Some init_mac_key) (Some (take 16 (tape (rand t)))) (replicate 32 0) = Some k
         \<and> gen_padlen (evutil_rng t) = Some (Inr padlen, rng)
         \<and> length (take 16 (tape (rand t))) = 16
         \<and> length (be_bytes 4 kMagicValue @ be_bytes 4 padlen) = 8
         \<and> length (stake (unat padlen) rng) = unat padlen
         \<and> ev_output (outgoing t') =
             ev_output (outgoing t) @ take 16 (tape (rand t))
             @ snd (ctr_xor c (keyed_from k) (be_bytes 4 kMagicValue @ be_bytes 4 padlen))
             @ stake (unat padlen) rng
         \<and> initiator_aes t' =
             fst (ctr_xor c (keyed_from k) (be_bytes 4 kMagicValue @ be_bytes 4 padlen))"
    by (auto simp: length_be_bytes min_def)
qed

theorem C3_handshake_bytes_witness:
  "on_outgoing_connected sample_crypto sample_session = Inr (True, sample_connected)
   \<and> ev_output (outgoing sample_connected)
       = replicate 16 0x11 @ [0xB8, 0x66, 0x59, 0xED, 0x93, 0x93, 0x93, 0x92] @ [0xB1]
   \<and> (\<exists>k. mac sample_crypto (Some init_mac_key) (Some (take 16 (tape (rand sample_session))))
             (replicate 32 0) = Some k
         \<and> ev_output (outgoing sample_connected) =
             ev_output (outgoing sample_session) @ take 16 (tape (rand sample_session))
             @ snd (ctr_xor sample_crypto (keyed_from k)
                     ((be_bytes 4 kMagicValue @ be_bytes 4 (pad_dist (rand sample_session)))
                      @ take (unat (pad_dist (rand sample_session)))
                          (drop 16 (tape (rand sample_session)))))
         \<and> initiator_aes sample_connected =
             fst (ctr_xor sample_crypto (keyed_from k)
                   ((be_bytes 4 kMagicValue @ be_bytes 4 (pad_dist (rand sample_session)))
                    @ take (unat (pad_dist (rand sample_session)))
                        (drop 16 (tape (rand sample_session))))))
   \<and> Obfs2Client_on_outgoing_connected sample_crypto sample_obfs2client
       = Some (Inr sample_obfs2client_connected)
   \<and> replies sample_obfs2client_connected = replies sample_obfs2client
   \<and> initiator_aes sample_connected
       = \<lparr>ctr_key = replicate 16 0, ctr_counter = 18762, ctr_num = 9\<rparr>
   \<and> initiator_aes sample_obfs2client_connected
       = \<lparr>ctr_key = replicate 16 0, ctr_counter = 18762, ctr_num = 8\<rparr>
   \<and> (\<exists>k padlen rng.
           mac sample_crypto (Some init_mac_key) (Some (take 16 (tape (rand sample_obfs2client))))
             (replicate 32 0) = Some k
         \<and> gen_padlen (evutil_rng sample_obfs2client) = Some (Inr padlen, rng)
         \<and> ev_output (outgoing sample_obfs2client_connected) =
             ev_output (outgoing sample_obfs2client) @ take 16 (tape (rand sample_obfs2client))
             @ snd (ctr_xor sample_crypto (keyed_from k)
                     (be_bytes 4 kMagicValue @ be_bytes 4 padlen))
             @ stake (unat padlen) rng
         \<and> initiator_aes sample_obfs2client_connected =
             fst (ctr_xor sample_crypto (keyed_from k)
                   (be_bytes 4 kMagicValue @ be_bytes 4 padlen)))"
proof -
  have o: "ev_output (outgoing sample_connected)
       = replicate 16 0x11 @ [0xB8, 0x66, 0x59, 0xED, 0x93, 0x93, 0x93, 0x92] @ [0xB1]"
    by code_simp
  have r: "replies sample_obfs2client_connected = replies sample_obfs2client"
    by (simp add: sample_obfs2client_connected_def)
  have a: "initiator_aes sample_connected
             = \<lparr>ctr_key = replicate 16 0, ctr_counter = 18762, ctr_num = 9\<rparr>"
    "initiator_aes sample_obfs2client_connected
       = \<lparr>ctr_key = replicate 16 0, ctr_counter = 18762, ctr_num = 8\<rparr>"
    by (simp_all add: sample_connected_def sample_obfs2client_connected_def)
  from C3_handshake_bytes [of sample_crypto sample_session sample_connected
      sample_obfs2client sample_obfs2client_connected]
    sample_connect sample_legacy_run r
  have "(\<exists>k. mac sample_crypto (Some init_mac_key) (Some (take 16 (tape (rand sample_session))))
             (replicate 32 0) = Some k
         \<and> ev_output (outgoing sample_connected) =
             ev_output (outgoing sample_session) @ take 16 (tape (rand sample_session))
             @ snd (ctr_xor sample_crypto (keyed_from k)
                     ((be_bytes 4 kMagicValue @ be_bytes 4 (pad_dist (rand sample_session)))
                      @ take (unat (pad_dist (rand sample_session)))
                          (drop 16 (tape (rand sample_session)))))
         \<and> initiator_aes sample_connected =
             fst (ctr_xor sample_crypto (keyed_from k)
                   ((be_bytes 4 kMagicValue @ be_bytes 4 (pad_dist (rand sample_session)))
                    @ take (unat (pad_dist (rand sample_session)))
                        (drop 16 (tape (rand sample_session))))))
      \<and> (\<exists>k padlen rng.
           mac sample_crypto (Some init_mac_key) (Some (take 16 (tape (rand sample_obfs2client))))
             (replicate 32 0) = Some k
         \<and> gen_padlen (evutil_rng sample_obfs2client) = Some (Inr padlen, rng)
         \<and> ev_output (outgoing sample_obfs2client_connected) =
             ev_output (outgoing sample_obfs2client) @ take 16 (tape (rand sample_obfs2client))
             @ snd (ctr_xor sample_crypto (keyed_from k)
                     (be_bytes 4 kMagicValue @ be_bytes 4 padlen))
             @ stake (unat padlen) rng
         \<and> initiator_aes sample_obfs2client_connected =
             fst (ctr_xor sample_crypto (keyed_from k)
                   (be_bytes 4 kMagicValue @ be_bytes 4 padlen)))"
    by blast
  with sample_connect sample_legacy_run o r a show ?thesis
    by blast
qed

subsection \<open>Sample runs of the handshake and the data phase\<close>

lemma sample_handshake:
  "connecting sample_crypto sample_connected [sample_peer_handshake] = Some sample_established"
  by code_simp

lemma sample_handshake_chunked:
  "connecting sample_crypto sample_connected
     [take 10 sample_peer_handshake, take 15 (drop 10 sample_peer_handshake),
      drop 25 sample_peer_handshake] = Some sample_established"
  by code_simp

lemma sample_splice: "splice sample_crypto sample_established sample_events = Some sample_spliced"
  by code_simp

theorem C1_splice_round_trip_witness:
  "splice sample_crypto sample_established sample_events = Some sample_spliced
   \<and> ev_input (incoming sample_established) = []
   \<and> ev_input (outgoing sample_established) = []
   \<and> client_bytes sample_events
       = [1, 2, 3, 4, 5, 6, 7, 8, 9, 10, 11, 12, 13, 14, 15, 16, 17, 18, 19, 20]
   \<and> snd (ctr_xor sample_crypto (initiator_aes sample_established) (client_bytes sample_events))
       = [154, 153, 152, 159, 158, 157, 156, 147, 146, 145,
          144, 151, 150, 149, 148, 66, 141, 142, 143, 136]
   \<and> ev_output (outgoing sample_spliced)
       = ev_output (outgoing sample_established)
         @ [154, 153, 152, 159, 158, 157, 156, 147, 146, 145,
            144, 151, 150, 149, 148, 66, 141, 142, 143, 136]
   \<and> peer_bytes sample_events =
       peer_echo sample_crypto (initiator_aes sample_established) (responder_aes sample_established)
         (drop (length (ev_output (outgoing sample_established)))
            (ev_output (outgoing sample_spliced)))
   \<and> ev_output (incoming sample_established) = []
   \<and> ev_output (incoming sample_spliced)
       = [1, 2, 3, 4, 5, 6, 7, 8, 9, 10, 11, 12, 13, 14, 15, 16, 17, 18, 19, 20]"
proof -
  have e1: "ev_input (incoming sample_established) = []"
    and e2: "ev_input (outgoing sample_established) = []"
    and e3: "ev_output (incoming sample_established) = []"
    by code_simp+
  have p: "peer_bytes sample_events =
       peer_echo sample_crypto (initiator_aes sample_established) (responder_aes sample_established)
         (drop (length (ev_output (outgoing sample_established)))
            (ev_output (outgoing sample_spliced)))"
    by code_simp
  have c: "client_bytes sample_events
       = [1, 2, 3, 4, 5, 6, 7, 8, 9, 10, 11, 12, 13, 14, 15, 16, 17, 18, 19, 20]"
    by code_simp
  have x: "snd (ctr_xor sample_crypto (initiator_aes sample_established)
                 (client_bytes sample_events))
       = [154, 153, 152, 159, 158, 157, 156, 147, 146, 145,
          144, 151, 150, 149, 148, 66, 141, 142, 143, 136]"
    by code_simp
  from C1_splice_round_trip [OF sample_splice e1 e2] p
  have w: "ev_output (outgoing sample_spliced) =
             ev_output (outgoing sample_established)
             @ snd (ctr_xor sample_crypto (initiator_aes sample_established)
                     (client_bytes sample_events))"
    and d: "ev_output (incoming sample_spliced)
              = ev_output (incoming sample_established) @ client_bytes sample_events"
    by blast+
  from w x have w': "ev_output (outgoing sample_spliced)
       = ev_output (outgoing sample_established)
         @ [154, 153, 152, 159, 158, 157, 156, 147, 146, 145,
            144, 151, 150, 149, 148, 66, 141, 142, 143, 136]"
    by simp
  from d c e3 have d': "ev_output (incoming sample_spliced)
       = [1, 2, 3, 4, 5, 6, 7, 8, 9, 10, 11, 12, 13, 14, 15, 16, 17, 18, 19, 20]"
    by simp
  from sample_splice e1 e2 e3 p c x w' d' show ?thesis
    by blast
qed

text \<open>
  C2 (as stated, refuted).  The claim has the data phase start from the initiator cipher
  state reached after header and padding, and has the responder cipher advance through
  the responder padding.  In the sample run the initiator pad cipher has used 9 bytes of
  its block when the handshake has been sent; once the responder's handshake with two
  bytes of padding has been read, the initiator cipher is the freshly keyed one, with
  another counter and no byte used, and so is the responder cipher: the two padding bytes
  have not moved it.
\<close>

theorem C2_pad_cipher_not_continued:
  "on_outgoing_connected sample_crypto sample_session = Inr (True, sample_connected)
   \<and> connecting sample_crypto sample_connected [sample_peer_handshake] = Some sample_established
   \<and> state sample_established = ESTABLISHED
   \<and> initiator_aes sample_connected
       = \<lparr>ctr_key = replicate 16 0, ctr_counter = 18762, ctr_num = 9\<rparr>
   \<and> initiator_aes sample_established
       = \<lparr>ctr_key = replicate 16 0, ctr_counter = 18770, ctr_num = 0\<rparr>
   \<and> initiator_aes sample_established \<noteq> initiator_aes sample_connected
   \<and> drop 24 sample_peer_handshake = [0xAA, 0xBB]
   \<and> responder_aes sample_established
       = \<lparr>ctr_key = replicate 16 0, ctr_counter = 21074, ctr_num = 0\<rparr>
   \<and> fst (ctr_xor sample_crypto (responder_aes sample_established) [0xAA, 0xBB])
       \<noteq> responder_aes sample_established"
  by (intro conjI sample_connect sample_handshake) code_simp+

theorem C2_data_ciphers_are_rekeyed_witness:
  "connecting sample_crypto sample_connected
     [take 10 sample_peer_handshake, take 15 (drop 10 sample_peer_handshake),
      drop 25 sample_peer_handshake] = Some sample_established
   \<and> state sample_connected = CONNECTING
   \<and> \<not> received_seed_hdr sample_connected
   \<and> state sample_established = ESTABLISHED
   \<and> (\<exists>hi hr.
         sha256 sample_crypto
           (init_data @ (init_seed sample_connected @ resp_seed sample_established) @ init_data)
           = Some hi
       \<and> sha256 sample_crypto
           (resp_data @ (init_seed sample_connected @ resp_seed sample_established) @ resp_data)
           = Some hr
       \<and> initiator_aes sample_established =
           \<lparr>ctr_key = take 16 (be_bytes 32 hi),
            ctr_counter = be_word (drop 16 (be_bytes 32 hi)), ctr_num = 0\<rparr>
       \<and> responder_aes sample_established =
           \<lparr>ctr_key = take 16 (be_bytes 32 hr),
            ctr_counter = be_word (drop 16 (be_bytes 32 hr)), ctr_num = 0\<rparr>)"
proof -
  have a: "state sample_connected = CONNECTING"
    and b: "\<not> received_seed_hdr sample_connected"
    and c: "state sample_established = ESTABLISHED"
    by code_simp+
  from C2_data_ciphers_are_rekeyed [OF sample_handshake_chunked a b c]
    sample_handshake_chunked a b c
  show ?thesis by blast
qed

theorem C8_consumes_no_more_witness:
  "on_outgoing_data_connecting sample_crypto
     (sample_connected\<lparr>outgoing := feed (outgoing sample_connected) (take 10 sample_peer_handshake)\<rparr>)
     = Inr (True, sample_connected
              \<lparr>outgoing := feed (outgoing sample_connected) (take 10 sample_peer_handshake)\<rparr>)
   \<and> (\<exists>s'. on_outgoing_data_connecting sample_crypto
              (sample_padding_pending
                 \<lparr>outgoing := feed (outgoing sample_padding_pending) [0xBB, 1, 2]\<rparr>)
              = Inr (True, s')
          \<and> ev_input (outgoing s') = [1, 2] \<and> unat (resp_pad_len s') = 0)
   \<and> on_outgoing_data_connecting sample_crypto
        (sample_connected
           \<lparr>outgoing := feed (outgoing sample_connected) (sample_peer_handshake @ [1, 2])\<rparr>)
        = Inr (True, sample_established
                 \<lparr>outgoing := feed (outgoing sample_established) [1, 2]\<rparr>)
   \<and> responder_header sample_crypto (sample_peer_handshake @ [1, 2]) = Some (kMagicValue, 2)
   \<and> ev_input (outgoing (sample_established
                 \<lparr>outgoing := feed (outgoing sample_established) [1, 2]\<rparr>)) = [1, 2]"
proof -
  let ?a = "sample_connected
              \<lparr>outgoing := feed (outgoing sample_connected) (take 10 sample_peer_handshake)\<rparr>"
  let ?b = "sample_padding_pending
              \<lparr>outgoing := feed (outgoing sample_padding_pending) [0xBB, 1, 2]\<rparr>"
  let ?c = "sample_connected
              \<lparr>outgoing := feed (outgoing sample_connected) (sample_peer_handshake @ [1, 2])\<rparr>"
  let ?c' = "sample_established\<lparr>outgoing := feed (outgoing sample_established) [1, 2]\<rparr>"
  have a: "state ?a = CONNECTING" "\<not> received_seed_hdr ?a"
    "length (ev_input (outgoing ?a)) = 10"
    by code_simp+
  have b: "state ?b = CONNECTING" "received_seed_hdr ?b"
    "length (ev_input (outgoing ?b)) = 3" "ev_input (outgoing ?b) = [0xBB, 1, 2]"
    "unat (resp_pad_len ?b) = 1"
    by code_simp+
  have c: "state ?c = CONNECTING" "\<not> received_seed_hdr ?c"
    "length (ev_input (outgoing ?c)) = 28" "ev_input (outgoing ?c) = sample_peer_handshake @ [1, 2]"
    by code_simp+
  have run: "on_outgoing_data_connecting sample_crypto ?c = Inr (True, ?c')"
    by code_simp
  have hdr: "responder_header sample_crypto (sample_peer_handshake @ [1, 2]) = Some (kMagicValue, 2)"
    by code_simp
  have c': "ev_input (outgoing ?c') = [1, 2]"
    by code_simp
  from C8_consumes_no_more [OF a(1), of sample_crypto] a(2,3)
  have ra: "on_outgoing_data_connecting sample_crypto ?a = Inr (True, ?a)"
    by simp
  from C8_consumes_no_more [OF b(1), of sample_crypto] b(2,3)
  obtain s' where
    "on_outgoing_data_connecting sample_crypto ?b = Inr (True, s')"
    "ev_input (outgoing s')
       = drop (min (unat (resp_pad_len ?b)) (length (ev_input (outgoing ?b))))
           (ev_input (outgoing ?b))"
    "unat (resp_pad_len s')
       = unat (resp_pad_len ?b) - min (unat (resp_pad_len ?b)) (length (ev_input (outgoing ?b)))"
    by auto
  then have rb: "\<exists>s'. on_outgoing_data_connecting sample_crypto ?b = Inr (True, s')
          \<and> ev_input (outgoing s') = [1, 2] \<and> unat (resp_pad_len s') = 0"
    unfolding b(3,4,5) by auto
  from C8_consumes_no_more [OF c(1), of sample_crypto] c(2,3) run
  obtain p :: "32 word" where
    "responder_header sample_crypto (ev_input (outgoing ?c)) = Some (kMagicValue, p)"
    "ev_input (outgoing ?c')
       = drop (24 + min (unat p) (length (ev_input (outgoing ?c)) - 24)) (ev_input (outgoing ?c))"
    by auto
  with ra rb run hdr c' show ?thesis
    by blast
qed

lemma sample_oversized_header_says:
  "responder_header sample_crypto sample_oversized_header = Some (kMagicValue, 9000)"
  by code_simp

lemma sample_bad_magic_header_says:
  "responder_header sample_crypto sample_bad_magic_header = Some (0xDEADBEEF, 0)"
  by code_simp

lemma sample_resp_pad_key:
  "mac sample_crypto (Some resp_mac_key) (Some (replicate 16 0x33)) (replicate kDigestLength 0)
     = Some (replicate 30 0 @ [0x52, 0x4A])"
  by code_simp

lemma sample_resp_pad_cipher:
  "set_state sample_crypto (take kAes128KeyLength (replicate 30 0 @ [0x52, 0x4A]))
     (drop kAes128KeyLength (replicate 30 0 @ [0x52, 0x4A]))
   = Some \<lparr>ctr_key = replicate 16 0, ctr_counter = 21066, ctr_num = 0\<rparr>"
  by code_simp

lemma sample_oversized_header_decrypted:
  "process sample_crypto \<lparr>ctr_key = replicate 16 0, ctr_counter = 21066, ctr_num = 0\<rparr>
     [0xB7, 0x69, 0x56, 0xE2, 0x9C, 0x9C, 0xBF, 0xB4]
   = Some (\<lparr>ctr_key = replicate 16 0, ctr_counter = 21066, ctr_num = 8\<rparr>,
           [0x2B, 0xF5, 0xCA, 0x7E, 0, 0, 0x23, 0x28])"
  by code_simp

lemma sample_oversized_header_words:
  "(be_word [0x2B, 0xF5, 0xCA, 0x7E] :: 32 word) = kMagicValue
   \<and> (be_word [0, 0, 0x23, 0x28] :: 32 word) = 9000"
  by code_simp

lemma sample_oversized_header_parts:
  "length sample_oversized_header = 24"
  "take 24 sample_oversized_header = sample_oversized_header"
  "take 16 sample_oversized_header = replicate 16 0x33"
  "drop 16 sample_oversized_header = [0xB7, 0x69, 0x56, 0xE2, 0x9C, 0x9C, 0xBF, 0xB4]"
  "drop 24 sample_oversized_header = []"
  by (simp_all add: sample_oversized_header_def)

lemma sample_legacy_rejection:
  "Obfs2Client_on_outgoing_data_connecting sample_crypto
     (sample_obfs2client_connected
        \<lparr>outgoing := feed (outgoing sample_obfs2client_connected) sample_oversized_header\<rparr>)
   = Inr sample_obfs2client_rejected"
  by (simp add: Obfs2Client_on_outgoing_data_connecting_def Obfs2Client_read_seed_hdr_def
      Obfs2Client_check_pad_hdr_def sample_obfs2client_def sample_obfs2client_connected_def
      sample_obfs2client_rejected_def
      sample_oversized_header_parts feed_def idle_def Let_def evbuffer_get_length_def
      evbuffer_pullup_def ev_call_def kSeedLength_def sample_resp_pad_key [unfolded kSeedLength_def]
      sample_resp_pad_cipher sample_oversized_header_decrypted sample_oversized_header_words
      send_socks4_response_def kMaxPadding_def unat_ucast_32_64
      del: take_append drop_append)

text \<open>
  C9 (as stated, refuted).  The claim has \<open>on_outgoing_data_connecting\<close> of both classes
  answer a bad responder header with \<open>send_socks5_response(GENERAL_FAILURE)\<close>.  The older
  class \<open>Obfs2Client\<close>, handed in the sample run a header whose padding length decrypts to
  9000, goes to \<open>out_error\<close> and calls \<open>send_socks4_response(false)\<close>: the one reply it
  sends is the SOCKS4 rejection, and no GENERAL_FAILURE.
\<close>

theorem C9_older_class_sends_socks4_rejection:
  "responder_header sample_crypto sample_oversized_header = Some (kMagicValue, 9000)
   \<and> kMaxPadding < unat (9000 :: 32 word)
   \<and> state (sample_obfs2client_connected
               \<lparr>outgoing := feed (outgoing sample_obfs2client_connected)
                              sample_oversized_header\<rparr>) = CONNECTING
   \<and> replies (sample_obfs2client_connected
                 \<lparr>outgoing := feed (outgoing sample_obfs2client_connected)
                                sample_oversized_header\<rparr>) = []
   \<and> Obfs2Client_on_outgoing_data_connecting sample_crypto
        (sample_obfs2client_connected
           \<lparr>outgoing := feed (outgoing sample_obfs2client_connected) sample_oversized_header\<rparr>)
       = Inr sample_obfs2client_rejected
   \<and> replies sample_obfs2client_rejected = [SOCKS4_REJECTED]
   \<and> GENERAL_FAILURE \<notin> set (replies sample_obfs2client_rejected)"
  using sample_oversized_header_says sample_legacy_rejection
  by (simp add: kMaxPadding_def sample_obfs2client_rejected_def sample_obfs2client_connected_def
      sample_obfs2client_def)

theorem C9_bad_header_witness:
  "responder_header sample_crypto sample_oversized_header = Some (kMagicValue, 9000)
   \<and> (\<exists>s'. on_outgoing_data_connecting sample_crypto
              (sample_connected
                 \<lparr>outgoing := feed (outgoing sample_connected) sample_oversized_header\<rparr>)
              = Inr (False, s')
          \<and> replies s' = [GENERAL_FAILURE] \<and> state s' \<noteq> ESTABLISHED)
   \<and> (\<exists>u. Obfs2Client_on_outgoing_data_connecting sample_crypto
              (sample_obfs2client_connected
                 \<lparr>outgoing := feed (outgoing sample_obfs2client_connected)
                                sample_oversized_header\<rparr>)
              = Inr (send_socks4_response False u)
          \<and> state u = CONNECTING \<and> replies u = []
          \<and> replies (send_socks4_response False u) = [SOCKS4_REJECTED]
          \<and> state (send_socks4_response False u) \<noteq> ESTABLISHED)
   \<and> responder_header sample_crypto sample_bad_magic_header = Some (0xDEADBEEF, 0)
   \<and> (\<exists>s'. on_outgoing_data_connecting sample_crypto
              (sample_connected
                 \<lparr>outgoing := feed (outgoing sample_connected) sample_bad_magic_header\<rparr>)
              = Inr (False, s')
          \<and> replies s' = [GENERAL_FAILURE] \<and> state s' \<noteq> ESTABLISHED)
   \<and> (\<exists>u. Obfs2Client_on_outgoing_data_connecting sample_crypto
              (sample_obfs2client_connected
                 \<lparr>outgoing := feed (outgoing sample_obfs2client_connected)
                                sample_bad_magic_header\<rparr>)
              = Inr (send_socks4_response False u)
          \<and> state u = CONNECTING \<and> replies u = []
          \<and> replies (send_socks4_response False u) = [SOCKS4_REJECTED]
          \<and> state (send_socks4_response False u) \<noteq> ESTABLISHED)"
proof -
  let ?d = "sample_connected
              \<lparr>outgoing := feed (outgoing sample_connected) sample_oversized_header\<rparr>"
  let ?e = "sample_connected
              \<lparr>outgoing := feed (outgoing sample_connected) sample_bad_magic_header\<rparr>"
  let ?f = "sample_obfs2client_connected
              \<lparr>outgoing := feed (outgoing sample_obfs2client_connected)
                             sample_oversized_header\<rparr>"
  let ?g = "sample_obfs2client_connected
              \<lparr>outgoing := feed (outgoing sample_obfs2client_connected)
                             sample_bad_magic_header\<rparr>"
  have d: "state ?d = CONNECTING" "\<not> received_seed_hdr ?d"
    "24 \<le> length (ev_input (outgoing ?d))"
    "ev_input (outgoing ?d) = sample_oversized_header" "replies ?d = []"
    by code_simp+
  have e: "state ?e = CONNECTING" "\<not> received_seed_hdr ?e"
    "24 \<le> length (ev_input (outgoing ?e))"
    "ev_input (outgoing ?e) = sample_bad_magic_header" "replies ?e = []"
    by code_simp+
  have f: "state ?f = CONNECTING" "\<not> received_seed_hdr ?f"
    "24 \<le> length (ev_input (outgoing ?f))"
    "ev_input (outgoing ?f) = sample_oversized_header" "replies ?f = []"
    by (simp_all add: sample_obfs2client_connected_def sample_obfs2client_def feed_def
        sample_oversized_header_def)
  have g: "state ?g = CONNECTING" "\<not> received_seed_hdr ?g"
    "24 \<le> length (ev_input (outgoing ?g))"
    "ev_input (outgoing ?g) = sample_bad_magic_header" "replies ?g = []"
    by (simp_all add: sample_obfs2client_connected_def sample_obfs2client_def feed_def
        sample_bad_magic_header_def)
  note hx = sample_oversized_header_says
  note hy = sample_bad_magic_header_says
  have bx: "kMagicValue \<noteq> kMagicValue \<or> unat (9000 :: 32 word) > kMaxPadding"
    by (simp add: kMaxPadding_def)
  have bm: "(0xDEADBEEF :: 32 word) \<noteq> kMagicValue \<or> unat (0 :: 32 word) > kMaxPadding"
    by (simp add: kMagicValue_def)
  from C9_bad_header [of ?d sample_crypto kMagicValue 9000 ?f] d f hx bx
  have rx: "\<exists>s'. on_outgoing_data_connecting sample_crypto ?d = Inr (False, s')
          \<and> replies s' = [GENERAL_FAILURE] \<and> state s' \<noteq> ESTABLISHED"
    and lx: "\<exists>u. Obfs2Client_on_outgoing_data_connecting sample_crypto ?f
                   = Inr (send_socks4_response False u)
          \<and> state u = CONNECTING \<and> replies u = []
          \<and> replies (send_socks4_response False u) = [SOCKS4_REJECTED]
          \<and> state (send_socks4_response False u) \<noteq> ESTABLISHED"
    by simp_all
  from C9_bad_header [of ?e sample_crypto "0xDEADBEEF" 0 ?g] e g hy bm
  have ry: "\<exists>s'. on_outgoing_data_connecting sample_crypto ?e = Inr (False, s')
          \<and> replies s' = [GENERAL_FAILURE] \<and> state s' \<noteq> ESTABLISHED"
    and ly: "\<exists>u. Obfs2Client_on_outgoing_data_connecting sample_crypto ?g
                   = Inr (send_socks4_response False u)
          \<and> state u = CONNECTING \<and> replies u = []
          \<and> replies (send_socks4_response False u) = [SOCKS4_REJECTED]
          \<and> state (send_socks4_response False u) \<noteq> ESTABLISHED"
    by simp_all
  from hx hy rx ry lx ly show ?thesis
    by blast
qed

end
